theory Spec2Isabelle
  imports Main
begin

section \<open>diff-verify: the data the script works on\<close>

text \<open>
  The repository is one script, \<^verbatim>\<open>src/cli.js\<close>: an async function that resolves a
  set of target files, copies each to a \<^verbatim>\<open>.tmp\<close> sibling, runs a command, compares
  every target with its copy, and moves the copies back in a \<^verbatim>\<open>finally\<close> block.

  The model threads an explicit \<open>world\<close> through the script: the files on disk, the
  sequence of calls the script has made to the outside (console, file system, child
  process) and \<^verbatim>\<open>process.exitCode\<close>. A file is its decoded text and whether it can be
  read; a path that is not in the map does not exist.
\<close>

type_synonym path = string

record node =
  content :: string
  readable :: bool

type_synonym fs = "path \<rightharpoonup> node"

datatype event =
    ConsoleLog string
  | ConsoleError string
  | Globby "string list"
  | PathExists path
  | CopyFile path path
  | Execa string "string list"
  | ReadFile path
  | MoveFile path path

record world =
  disk :: fs
  trace :: "event list"
  exitCode :: "nat option"

text \<open>
  What a rejected promise carries: an \<^verbatim>\<open>Error\<close> the script throws itself (with its
  message), a failed file-system call, the rejection of \<^verbatim>\<open>execa\<close>, or the
  \<^verbatim>\<open>TypeError\<close> of reading \<^verbatim>\<open>.length\<close> of \<^verbatim>\<open>undefined\<close>.
\<close>

datatype error =
    Error string
  | ENOENT path
  | EACCES path
  | ExecaError string "string list"
  | TypeError

text \<open>How the async function ends: its promise resolves, it rejects, or
  \<^verbatim>\<open>cli.showHelp(2)\<close> has ended the process with that code.\<close>

datatype completion = Resolved | Rejected error | ProcessExit nat

text \<open>A change object of the \<^verbatim>\<open>diff\<close> package (\<^verbatim>\<open>added\<close> and \<^verbatim>\<open>removed\<close> are
  \<^verbatim>\<open>true\<close> or absent there; \<^verbatim>\<open>value\<close> is absent until the package fills it in, which
  is the empty string here).\<close>

record change =
  "value" :: string
  count :: nat
  added :: bool
  removed :: bool

text \<open>
  The packages the script imports and the process it runs in are parameters of the
  model: \<open>chalk c s\<close> is \<^verbatim>\<open>chalk.c(s)\<close>; \<open>helpText\<close> is the usage text of \<^verbatim>\<open>meow\<close>;
  \<open>globby\<close> maps the patterns and the disk to the matched files;
  \<open>isPathInside f\<close> is \<^verbatim>\<open>isPathInside(f, process.cwd())\<close>; \<open>execa\<close> gives, for
  a command and the disk it starts on, whether it succeeded and the disk it leaves
  (a command that does not start leaves the disk as it was and did not succeed);
  \<open>diffLines\<close> is \<open>None\<close> where the package returns \<^verbatim>\<open>undefined\<close>.
\<close>

record env =
  chalk :: "string \<Rightarrow> string \<Rightarrow> string"
  helpText :: string
  globby :: "string list \<Rightarrow> fs \<Rightarrow> path list"
  isPathCwd :: "path \<Rightarrow> bool"
  isPathInside :: "path \<Rightarrow> bool"
  execa :: "string \<Rightarrow> string list \<Rightarrow> fs \<Rightarrow> bool \<times> fs"
  diffLines :: "string \<Rightarrow> string \<Rightarrow> change list option"
  createTwoFilesPatch :: "string \<Rightarrow> string \<Rightarrow> string \<Rightarrow> string \<Rightarrow> string"

record flags =
  dryRun :: bool
  paths :: "string list"

section \<open>Strings\<close>

text \<open>\<^verbatim>\<open>s.padEnd(n)\<close>, \<^verbatim>\<open>xs.join(sep)\<close> and a template's \<^verbatim>\<open>"${s}"\<close>.\<close>

definition padEnd :: "nat \<Rightarrow> string \<Rightarrow> string" where
  "padEnd n s = s @ replicate (n - length s) (CHR '' '')"

fun join :: "string \<Rightarrow> string list \<Rightarrow> string" where
  "join sep [] = []"
| "join sep [x] = x"
| "join sep (x # y # ys) = x @ sep @ join sep (y # ys)"

definition quoted :: "string \<Rightarrow> string" where
  "quoted s = [CHR 0x22] @ s @ [CHR 0x22]"

section \<open>The calls to the outside\<close>

definition emit_event :: "event \<Rightarrow> world \<Rightarrow> world" where
  "emit_event e w = w\<lparr>trace := trace w @ [e]\<rparr>"

definition pathExists :: "path \<Rightarrow> world \<Rightarrow> bool \<times> world" where
  "pathExists p w = (disk w p \<noteq> None, emit_event (PathExists p) w)"

text \<open>\<^verbatim>\<open>fs.promises.copyFile\<close>: the source must exist and be readable; the
  destination is created or overwritten with the source's content and mode.\<close>

definition copyFile :: "path \<Rightarrow> path \<Rightarrow> world \<Rightarrow> (error + unit) \<times> world" where
  "copyFile src dst w =
     (let w' = emit_event (CopyFile src dst) w in
      case disk w src of
        None \<Rightarrow> (Inl (ENOENT src), w')
      | Some f \<Rightarrow>
          if readable f then (Inr (), w'\<lparr>disk := (disk w)(dst \<mapsto> f)\<rparr>)
          else (Inl (EACCES src), w'))"

text \<open>\<^verbatim>\<open>fs.promises.readFile(p, {encoding: 'utf8'})\<close>.\<close>

definition readFile :: "path \<Rightarrow> world \<Rightarrow> (error + string) \<times> world" where
  "readFile p w =
     (let w' = emit_event (ReadFile p) w in
      case disk w p of
        None \<Rightarrow> (Inl (ENOENT p), w')
      | Some f \<Rightarrow> if readable f then (Inr (content f), w') else (Inl (EACCES p), w'))"

text \<open>\<^verbatim>\<open>moveFile(src, dst)\<close> (the \<^verbatim>\<open>move-file\<close> package, overwriting by default): a
  rename, which needs the source to exist.\<close>

definition moveFile :: "path \<Rightarrow> path \<Rightarrow> world \<Rightarrow> (error + unit) \<times> world" where
  "moveFile src dst w =
     (let w' = emit_event (MoveFile src dst) w in
      case disk w src of
        None \<Rightarrow> (Inl (ENOENT src), w')
      | Some f \<Rightarrow> (Inr (), w'\<lparr>disk := ((disk w)(dst \<mapsto> f))(src := None)\<rparr>))"

text \<open>\<^verbatim>\<open>execa(file, args, {stdio: 'inherit'})\<close>: rejects when the command fails.\<close>

definition execa_call :: "env \<Rightarrow> string \<Rightarrow> string list \<Rightarrow> world \<Rightarrow> (error + unit) \<times> world" where
  "execa_call env cmd args w =
     (let w' = emit_event (Execa cmd args) w;
          (ok, d) = execa env cmd args (disk w)
      in (if ok then Inr () else Inl (ExecaError cmd args), w'\<lparr>disk := d\<rparr>))"

definition globby_call :: "env \<Rightarrow> string list \<Rightarrow> world \<Rightarrow> path list \<times> world" where
  "globby_call env ps w = (globby env ps (disk w), emit_event (Globby ps) w)"

section \<open>The script\<close>

text \<open>\<^verbatim>\<open>log(prefix, message)\<close>, lines 53 to 81: the line it builds (\<^verbatim>\<open>out\<close>), and where
  it prints it.\<close>

definition logText :: "env \<Rightarrow> string \<Rightarrow> string \<Rightarrow> string" where
  "logText env prefix message =
     (let p = (if prefix = ''copy'' then chalk env ''blue'' ''copy''
               else if prefix = ''emit'' then chalk env ''yellow'' ''emit''
               else if prefix = ''diff'' then chalk env ''green'' ''diff''
               else if prefix = ''move'' then chalk env ''magenta'' ''move''
               else if prefix = ''error'' then chalk env ''red'' ''error''
               else prefix)
      in padEnd 20 (''['' @ p @ '']'') @ message)"

definition log :: "env \<Rightarrow> string \<Rightarrow> string \<Rightarrow> world \<Rightarrow> world" where
  "log env prefix message w =
     (let out = logText env prefix message
      in if prefix = ''error'' then emit_event (ConsoleError out) w
         else emit_event (ConsoleLog out) w)"

definition getTmpFileName :: "path \<Rightarrow> path" where
  "getTmpFileName file = file @ ''.tmp''"

text \<open>The first loop of the async function, lines 101 to 114: every file is checked
  before any is copied.\<close>

fun validate :: "env \<Rightarrow> path list \<Rightarrow> world \<Rightarrow> (error + unit) \<times> world" where
  "validate env [] w = (Inr (), w)"
| "validate env (file # files) w =
     (let tempFile = getTmpFileName file in
      if isPathCwd env file then
        (Inl (Error (quoted file @ '': Cannot copy the current working directory.'')), w)
      else if \<not> isPathInside env file then
        (Inl (Error (quoted file @
           '': Cannot copy files/directories outside the current working directory.'')), w)
      else
        (case pathExists tempFile w of
           (True, w1) \<Rightarrow>
             (Inl (Error (quoted tempFile @ '' already exists. It must be deleted to proceed.'')), w1)
         | (False, w1) \<Rightarrow> validate env files w1))"

text \<open>The copy loop, lines 115 to 121.\<close>

fun snapshot :: "env \<Rightarrow> bool \<Rightarrow> path list \<Rightarrow> world \<Rightarrow> (error + unit) \<times> world" where
  "snapshot env dry [] w = (Inr (), w)"
| "snapshot env dry (file # files) w =
     (let tempFile = getTmpFileName file;
          w1 = log env ''copy'' (quoted file @ '' -> '' @ quoted tempFile) w
      in if dry then snapshot env dry files w1
         else (case copyFile file tempFile w1 of
                 (Inl e, w2) \<Rightarrow> (Inl e, w2)
               | (Inr u, w2) \<Rightarrow> snapshot env dry files w2))"

text \<open>The diff loop, lines 132 to 146; the accumulator is \<^verbatim>\<open>diffFound\<close>.\<close>

fun diffLoop :: "env \<Rightarrow> bool \<Rightarrow> path list \<Rightarrow> bool \<Rightarrow> world \<Rightarrow> (error + bool) \<times> world" where
  "diffLoop env dry [] diffFound w = (Inr diffFound, w)"
| "diffLoop env dry (file # files) diffFound w =
     (let tempFile = getTmpFileName file;
          w1 = log env ''diff'' (quoted file @ '' <> '' @ quoted tempFile) w
      in if dry then diffLoop env dry files diffFound w1
         else
           (case readFile file w1 of
              (Inl e, w2) \<Rightarrow> (Inl e, w2)
            | (Inr fileContents, w2) \<Rightarrow>
                (case readFile tempFile w2 of
                   (Inl e, w3) \<Rightarrow> (Inl e, w3)
                 | (Inr tempFileContents, w3) \<Rightarrow>
                     (case diffLines env tempFileContents fileContents of
                        None \<Rightarrow> (Inl TypeError, w3)
                      | Some diff \<Rightarrow>
                          if length diff > 1 then
                            (let w4 = log env ''error'' (''Found diff in '' @ quoted file @ ''.'') w3;
                                 patch = createTwoFilesPatch env tempFile file
                                           tempFileContents fileContents;
                                 w5 = emit_event (ConsoleLog patch) w4
                             in diffLoop env dry files True w5)
                          else diffLoop env dry files diffFound w3))))"

text \<open>The body of the \<^verbatim>\<open>try\<close> block, lines 126 to 150.\<close>

definition tryBlock ::
  "env \<Rightarrow> bool \<Rightarrow> string \<Rightarrow> string list \<Rightarrow> path list \<Rightarrow> world \<Rightarrow> (error + unit) \<times> world" where
  "tryBlock env dry cmd args files w =
     (case (if \<not> dry then execa_call env cmd args w else (Inr (), w)) of
        (Inl e, w1) \<Rightarrow> (Inl e, w1)
      | (Inr u, w1) \<Rightarrow>
          (case diffLoop env dry files False w1 of
             (Inl e, w2) \<Rightarrow> (Inl e, w2)
           | (Inr diffFound, w2) \<Rightarrow>
               (Inr (), if diffFound then w2\<lparr>exitCode := Some 1\<rparr> else w2)))"

text \<open>The loop of the \<^verbatim>\<open>finally\<close> block, lines 153 to 159.\<close>

fun restore :: "env \<Rightarrow> bool \<Rightarrow> path list \<Rightarrow> world \<Rightarrow> (error + unit) \<times> world" where
  "restore env dry [] w = (Inr (), w)"
| "restore env dry (file # files) w =
     (let tempFile = getTmpFileName file;
          w1 = log env ''move'' (quoted tempFile @ '' -> '' @ quoted file) w
      in if dry then restore env dry files w1
         else (case moveFile tempFile file w1 of
                 (Inl e, w2) \<Rightarrow> (Inl e, w2)
               | (Inr u, w2) \<Rightarrow> restore env dry files w2))"

text \<open>\<^verbatim>\<open>try { ... } finally { ... }\<close>: the \<^verbatim>\<open>finally\<close> block runs on the world the
  \<^verbatim>\<open>try\<close> block left, however that block ended; an error thrown in the \<^verbatim>\<open>finally\<close>
  block replaces the completion of the \<^verbatim>\<open>try\<close> block.\<close>

definition tryFinally ::
  "(world \<Rightarrow> (error + unit) \<times> world) \<Rightarrow> (world \<Rightarrow> (error + unit) \<times> world) \<Rightarrow>
     world \<Rightarrow> (error + unit) \<times> world" where
  "tryFinally body cleanup w =
     (case body w of
        (r, w1) \<Rightarrow>
          (case cleanup w1 of
             (Inl e, w2) \<Rightarrow> (Inl e, w2)
           | (Inr u, w2) \<Rightarrow> (r, w2)))"

text \<open>The async function, lines 85 to 161. \<open>input\<close> is \<^verbatim>\<open>cli.input\<close>.\<close>

definition main :: "env \<Rightarrow> flags \<Rightarrow> string list \<Rightarrow> world \<Rightarrow> completion \<times> world" where
  "main env fl input w =
     (case input of
        [] \<Rightarrow>
          (ProcessExit 2,
           emit_event (ConsoleLog (helpText env)) (log env ''error'' ''Missing command'' w))
      | cmd # args \<Rightarrow>
          (case globby_call env (paths fl) w of
             (files, w1) \<Rightarrow>
               if length files = 0 then
                 (Rejected (Error (''No files found matching path/glob '' @
                    quoted (join '','' (paths fl)) @ ''.'')), w1)
               else
                 (case validate env files w1 of
                    (Inl e, w2) \<Rightarrow> (Rejected e, w2)
                  | (Inr u, w2) \<Rightarrow>
                      (case snapshot env (dryRun fl) files w2 of
                         (Inl e, w3) \<Rightarrow> (Rejected e, w3)
                       | (Inr u, w3) \<Rightarrow>
                           (case tryFinally (tryBlock env (dryRun fl) cmd args files)
                                   (restore env (dryRun fl) files)
                                   (log env ''emit'' (join '' '' input) w3) of
                              (Inl e, w4) \<Rightarrow> (Rejected e, w4)
                            | (Inr u, w4) \<Rightarrow> (Resolved, w4))))))"


section \<open>The line diff of the \<^verbatim>\<open>diff\<close> package\<close>

text \<open>
  \<^verbatim>\<open>diffLines\<close> is imported from the \<^verbatim>\<open>diff\<close> package (jsdiff), which is not part of
  this repository. What follows transcribes the package's \<^verbatim>\<open>lineDiff.diff\<close> as of its
  release 5.0.0 (\<^verbatim>\<open>src/diff/base.js\<close> and \<^verbatim>\<open>src/diff/line.js\<close>), called as the script
  calls it: no options, no callback. The orchestration above does not depend on it; it
  is used where a statement is about what the test \<^verbatim>\<open>diff.length > 1\<close> decides.
\<close>

text \<open>\<^verbatim>\<open>value.split(/(\n|\r\n)/)\<close>: the pieces between the separators, alternating with
  the separators themselves; the first argument is the piece read so far.\<close>

fun splitNewlines :: "string \<Rightarrow> string \<Rightarrow> string list" where
  "splitNewlines cur [] = [cur]"
| "splitNewlines cur (c # cs) =
     (if c = CHR 0x0A then cur # [CHR 0x0A] # splitNewlines [] cs
      else if c = CHR 0x0D \<and> cs \<noteq> [] \<and> hd cs = CHR 0x0A
        then cur # [CHR 0x0D, CHR 0x0A] # splitNewlines [] (tl cs)
      else splitNewlines (cur @ [c]) cs)"

text \<open>The loop of \<^verbatim>\<open>lineDiff.tokenize\<close> that appends each separator (odd index) to the
  line before it.\<close>

fun mergeTokens :: "string list \<Rightarrow> string list" where
  "mergeTokens (line # sep # rest) = (line @ sep) # mergeTokens rest"
| "mergeTokens [line] = [line]"
| "mergeTokens [] = []"

definition tokenize :: "string \<Rightarrow> string list" where
  "tokenize v =
     (let linesAndNewlines = splitNewlines [] v;
          linesAndNewlines = (if last linesAndNewlines = [] then butlast linesAndNewlines
                              else linesAndNewlines)
      in mergeTokens linesAndNewlines)"

definition removeEmpty :: "string list \<Rightarrow> string list" where
  "removeEmpty array = filter (\<lambda>t. t \<noteq> []) array"

text \<open>\<^verbatim>\<open>xs[i]\<close>: \<^verbatim>\<open>undefined\<close> (here \<open>None\<close>) outside the array.\<close>

definition at :: "'a list \<Rightarrow> int \<Rightarrow> 'a option" where
  "at xs i = (if 0 \<le> i \<and> i < int (length xs) then Some (xs ! nat i) else None)"

record editPath =
  newPos :: int
  components :: "change list"

definition pushComponent :: "change list \<Rightarrow> bool \<Rightarrow> bool \<Rightarrow> change list" where
  "pushComponent comps a r =
     (if comps \<noteq> [] \<and> added (last comps) = a \<and> removed (last comps) = r
      then butlast comps @ [\<lparr>value = [], count = count (last comps) + 1, added = a, removed = r\<rparr>]
      else comps @ [\<lparr>value = [], count = 1, added = a, removed = r\<rparr>])"

text \<open>The \<^verbatim>\<open>while\<close> loop of \<^verbatim>\<open>extractCommon\<close>; it gives \<^verbatim>\<open>newPos\<close>, \<^verbatim>\<open>oldPos\<close> and
  \<^verbatim>\<open>commonCount\<close>.\<close>

function commonLoop ::
  "string list \<Rightarrow> string list \<Rightarrow> int \<Rightarrow> int \<Rightarrow> nat \<Rightarrow> int \<times> int \<times> nat" where
  "commonLoop newString oldString np op commonCount =
     (if np + 1 < int (length newString) \<and> op + 1 < int (length oldString)
         \<and> at newString (np + 1) = at oldString (op + 1)
      then commonLoop newString oldString (np + 1) (op + 1) (commonCount + 1)
      else (np, op, commonCount))"
  by pat_completeness auto
termination
  by (relation "measure (\<lambda>(n, ol, np, op, c). nat (int (length n) - np))") auto

definition extractCommon ::
  "editPath \<Rightarrow> string list \<Rightarrow> string list \<Rightarrow> int \<Rightarrow> editPath \<times> int" where
  "extractCommon basePath newString oldString diagonalPath =
     (case commonLoop newString oldString (newPos basePath) (newPos basePath - diagonalPath) 0 of
        (np, op, commonCount) \<Rightarrow>
          (\<lparr>newPos = np,
            components =
              (if commonCount \<noteq> 0
               then components basePath @
                      [\<lparr>value = [], count = commonCount, added = False, removed = False\<rparr>]
               else components basePath)\<rparr>, op))"

text \<open>The loop of \<^verbatim>\<open>buildValues\<close>: \<open>out\<close> is the part of the array already passed, so
  its last element is \<^verbatim>\<open>components[componentPos - 1]\<close>, which a removal swaps with when it
  is an addition.\<close>

fun buildLoop ::
  "string list \<Rightarrow> string list \<Rightarrow> change list \<Rightarrow> nat \<Rightarrow> nat \<Rightarrow> change list \<Rightarrow> change list" where
  "buildLoop newString oldString [] np op out = out"
| "buildLoop newString oldString (c # cs) np op out =
     (if \<not> removed c then
        buildLoop newString oldString cs (np + count c) (if \<not> added c then op + count c else op)
          (out @ [c\<lparr>value := concat (take (count c) (drop np newString))\<rparr>])
      else
        (let v = c\<lparr>value := concat (take (count c) (drop op oldString))\<rparr>
         in buildLoop newString oldString cs np (op + count c)
              (if out \<noteq> [] \<and> added (last out) then butlast out @ [v, last out]
               else out @ [v])))"

definition buildValues :: "change list \<Rightarrow> string list \<Rightarrow> string list \<Rightarrow> change list" where
  "buildValues comps newString oldString =
     (let out = buildLoop newString oldString comps 0 0 []
      in if length out > 1 \<and> (added (last out) \<or> removed (last out)) \<and> value (last out) = []
         then butlast (butlast out) @
                [(last (butlast out))\<lparr>value := value (last (butlast out)) @ value (last out)\<rparr>]
         else out)"

text \<open>The \<^verbatim>\<open>for\<close> loop of \<^verbatim>\<open>execEditLength\<close> over the diagonals: \<open>Inl\<close> is the result
  it returns through \<^verbatim>\<open>done\<close>, \<open>Inr\<close> the paths it leaves when it ends without one.
  \<^verbatim>\<open>bestPath\<close> is a sparse array (it has negative indices). When neither neighbour
  exists the diagonal is pruned before a base path is chosen.\<close>

function diagonalLoop ::
  "string list \<Rightarrow> string list \<Rightarrow> int \<Rightarrow> int \<Rightarrow> (int \<rightharpoonup> editPath) \<Rightarrow>
     change list + (int \<rightharpoonup> editPath)" where
  "diagonalLoop newString oldString editLength diagonalPath bestPath =
     (if diagonalPath \<le> editLength then
        (let addPath = bestPath (diagonalPath - 1);
             removePath = bestPath (diagonalPath + 1);
             oldPos = (case removePath of Some rp \<Rightarrow> newPos rp | None \<Rightarrow> 0) - diagonalPath;
             bestPath1 = (if addPath \<noteq> None then bestPath(diagonalPath - 1 := None)
                          else bestPath);
             canAdd = (case addPath of
                         Some ap \<Rightarrow> newPos ap + 1 < int (length newString)
                       | None \<Rightarrow> False);
             canRemove = (removePath \<noteq> None \<and> 0 \<le> oldPos \<and> oldPos < int (length oldString))
         in if \<not> canAdd \<and> \<not> canRemove then
              diagonalLoop newString oldString editLength (diagonalPath + 2)
                (bestPath1(diagonalPath := None))
            else
              (let basePath =
                     (case (addPath, removePath) of
                        (Some ap, Some rp) \<Rightarrow>
                          if \<not> canAdd \<or> (canRemove \<and> newPos ap < newPos rp)
                          then \<lparr>newPos = newPos rp,
                                components = pushComponent (components rp) False True\<rparr>
                          else \<lparr>newPos = newPos ap + 1,
                                components = pushComponent (components ap) True False\<rparr>
                      | (None, Some rp) \<Rightarrow>
                          \<lparr>newPos = newPos rp,
                           components = pushComponent (components rp) False True\<rparr>
                      | (Some ap, None) \<Rightarrow>
                          \<lparr>newPos = newPos ap + 1,
                           components = pushComponent (components ap) True False\<rparr>
                      | (None, None) \<Rightarrow> \<lparr>newPos = 0, components = []\<rparr>)
               in case extractCommon basePath newString oldString diagonalPath of
                    (basePath', oldPos') \<Rightarrow>
                      if newPos basePath' + 1 \<ge> int (length newString)
                         \<and> oldPos' + 1 \<ge> int (length oldString)
                      then Inl (buildValues (components basePath') newString oldString)
                      else diagonalLoop newString oldString editLength (diagonalPath + 2)
                             (bestPath1(diagonalPath \<mapsto> basePath'))))
      else Inr bestPath)"
  by pat_completeness auto
termination
  by (relation "measure (\<lambda>(n, ol, e, d, b). nat (e - d + 2))") auto

text \<open>\<^verbatim>\<open>while (editLength <= maxEditLength)\<close>: \<open>None\<close> is the \<^verbatim>\<open>undefined\<close> the function
  returns when the loop ends without a result.\<close>

function editLoop ::
  "string list \<Rightarrow> string list \<Rightarrow> int \<Rightarrow> int \<Rightarrow> (int \<rightharpoonup> editPath) \<Rightarrow> change list option" where
  "editLoop newString oldString editLength maxEditLength bestPath =
     (if editLength \<le> maxEditLength then
        (case diagonalLoop newString oldString editLength (- editLength) bestPath of
           Inl ret \<Rightarrow> Some ret
         | Inr bestPath' \<Rightarrow>
             editLoop newString oldString (editLength + 1) maxEditLength bestPath')
      else None)"
  by pat_completeness auto
termination
  by (relation "measure (\<lambda>(n, ol, e, m, b). nat (m - e + 1))") auto

definition lineDiff :: "string \<Rightarrow> string \<Rightarrow> change list option" where
  "lineDiff oldStr newStr =
     (let oldString = removeEmpty (tokenize oldStr);
          newString = removeEmpty (tokenize newStr);
          newLen = int (length newString);
          oldLen = int (length oldString);
          maxEditLength = newLen + oldLen
      in case extractCommon \<lparr>newPos = - 1, components = []\<rparr> newString oldString 0 of
           (p0, oldPos) \<Rightarrow>
             if newPos p0 + 1 \<ge> newLen \<and> oldPos + 1 \<ge> oldLen
             then Some [\<lparr>value = concat newString, count = length newString,
                         added = False, removed = False\<rparr>]
             else editLoop newString oldString 1 maxEditLength (Map.empty(0 \<mapsto> p0)))"

text \<open>The three loops are unfolded by hand, step by step.\<close>

declare commonLoop.simps [simp del] diagonalLoop.simps [simp del] editLoop.simps [simp del]


section \<open>Vocabulary of the statements\<close>

text \<open>The event a call of \<^verbatim>\<open>log\<close> adds, and the four progress lines of the script.\<close>

definition logEvent :: "env \<Rightarrow> string \<Rightarrow> string \<Rightarrow> event" where
  "logEvent env prefix message =
     (if prefix = ''error'' then ConsoleError (logText env prefix message)
      else ConsoleLog (logText env prefix message))"

definition copyLine :: "env \<Rightarrow> path \<Rightarrow> event" where
  "copyLine env f = logEvent env ''copy'' (quoted f @ '' -> '' @ quoted (getTmpFileName f))"

definition emitLine :: "env \<Rightarrow> string list \<Rightarrow> event" where
  "emitLine env input = logEvent env ''emit'' (join '' '' input)"

definition diffLine :: "env \<Rightarrow> path \<Rightarrow> event" where
  "diffLine env f = logEvent env ''diff'' (quoted f @ '' <> '' @ quoted (getTmpFileName f))"

definition moveLine :: "env \<Rightarrow> path \<Rightarrow> event" where
  "moveLine env f = logEvent env ''move'' (quoted (getTmpFileName f) @ '' -> '' @ quoted f)"

text \<open>A file passes validation on a disk: it is not the working directory, it is inside
  it, and no file exists at its \<^verbatim>\<open>.tmp\<close> path.\<close>

definition passes :: "env \<Rightarrow> fs \<Rightarrow> path \<Rightarrow> bool" where
  "passes env d f = (\<not> isPathCwd env f \<and> isPathInside env f \<and> d (getTmpFileName f) = None)"

text \<open>The \<^verbatim>\<open>pathExists\<close> calls of validation over a list of files.\<close>

definition probes :: "path list \<Rightarrow> event list" where
  "probes files = map (\<lambda>f. PathExists (getTmpFileName f)) files"

text \<open>An event is quiet when it is none of the four calls a dry run is to skip: copying a
  file, running the command, reading a file, moving a file.\<close>

fun quiet :: "event \<Rightarrow> bool" where
  "quiet (CopyFile src dst) = False"
| "quiet (Execa cmd args) = False"
| "quiet (ReadFile p) = False"
| "quiet (MoveFile src dst) = False"
| "quiet e = True"

text \<open>Moves, and the events of one round of the copy loop and of the restore loop.\<close>

fun isMove :: "event \<Rightarrow> bool" where
  "isMove (MoveFile src dst) = True"
| "isMove e = False"

definition copyEvents :: "env \<Rightarrow> path \<Rightarrow> event list" where
  "copyEvents env f = [copyLine env f, CopyFile f (getTmpFileName f)]"

definition moveEvents :: "env \<Rightarrow> path \<Rightarrow> event list" where
  "moveEvents env f = [moveLine env f, MoveFile (getTmpFileName f) f]"


definition changed :: "env \<Rightarrow> fs \<Rightarrow> path \<Rightarrow> bool" where
  "changed env d f =
     (case (d f, d (getTmpFileName f)) of
        (Some n, Some t) \<Rightarrow>
          (case diffLines env (content t) (content n) of
             Some diff \<Rightarrow> length diff > 1
           | None \<Rightarrow> False)
      | _ \<Rightarrow> False)"



text \<open>The components of an edit path that has only added, or only removed, \<open>n\<close> tokens.\<close>

definition additions :: "nat \<Rightarrow> change list" where
  "additions n = (if n = 0 then [] else [\<lparr>value = [], count = n, added = True, removed = False\<rparr>])"

definition removals :: "nat \<Rightarrow> change list" where
  "removals n = (if n = 0 then [] else [\<lparr>value = [], count = n, added = False, removed = True\<rparr>])"

section \<open>A concrete environment\<close>

text \<open>
  Concrete inputs for the statements below: a terminal without colours, patterns
  that are plain file names (each matches itself when it exists), the working
  directory \<^verbatim>\<open>.\<close>, a command that succeeds and writes nothing (the examples replace it),
  the line diff transcribed above, and a patch that is only its two header lines.
\<close>

definition sampleEnv :: env where
  "sampleEnv =
     \<lparr>chalk = (\<lambda>colour s. s),
      helpText = ''Usage: diff-verify -p <path|glob> [--dry-run] -- <command> [...args]'',
      globby = (\<lambda>ps d. filter (\<lambda>p. d p \<noteq> None) ps),
      isPathCwd = (\<lambda>p. p = ''.''),
      isPathInside = (\<lambda>p. p \<noteq> ''.'' \<and> take 1 p \<noteq> ''/'' \<and> take 2 p \<noteq> ''..''),
      execa = (\<lambda>cmd args d. (True, d)),
      diffLines = lineDiff,
      createTwoFilesPatch = (\<lambda>oldFileName newFileName oldStr newStr.
         ''--- '' @ oldFileName @ [CHR 0x0A] @ ''+++ '' @ newFileName @ [CHR 0x0A])\<rparr>"

definition textFile :: "string \<Rightarrow> node" where
  "textFile s = \<lparr>content = s @ [CHR 0x0A], readable = True\<rparr>"

definition onDisk :: "fs \<Rightarrow> world" where
  "onDisk d = \<lparr>disk = d, trace = [], exitCode = None\<rparr>"

definition cleanDisk :: fs where
  "cleanDisk = [''schema.ts'' \<mapsto> textFile ''A'']"

definition staleDisk :: fs where
  "staleDisk = [''schema.ts'' \<mapsto> textFile ''A'', ''schema.ts.tmp'' \<mapsto> textFile ''old'']"

text \<open>Three generators: one overwrites the target; one fails after overwriting it; one
  clears its output directory, shadow copy included, before it writes the target.\<close>

definition writingEnv :: env where
  "writingEnv = sampleEnv\<lparr>execa := (\<lambda>cmd args d. (True, d(''schema.ts'' \<mapsto> textFile ''B'')))\<rparr>"

definition failingEnv :: env where
  "failingEnv = sampleEnv\<lparr>execa := (\<lambda>cmd args d. (False, d(''schema.ts'' \<mapsto> textFile ''B'')))\<rparr>"

definition wipingEnv :: env where
  "wipingEnv = sampleEnv\<lparr>execa := (\<lambda>cmd args d.
     (True, (d(''schema.ts'' \<mapsto> textFile ''B''))(''schema.ts.tmp'' := None)))\<rparr>"

definition normalRun :: flags where
  "normalRun = \<lparr>dryRun = False, paths = [''schema.ts'']\<rparr>"

definition emptyFileDisk :: fs where
  "emptyFileDisk = [''schema.ts'' \<mapsto> \<lparr>content = [], readable = True\<rparr>]"

text \<open>Two targets, the second of which cannot be read.\<close>

definition twoFiles :: flags where
  "twoFiles = \<lparr>dryRun = False, paths = [''a.ts'', ''b.ts'']\<rparr>"

definition lockedDisk :: fs where
  "lockedDisk = [''a.ts'' \<mapsto> textFile ''A'',
                 ''b.ts'' \<mapsto> \<lparr>content = ''B'' @ [CHR 0x0A], readable = False\<rparr>]"

text \<open>After a generator has rewritten three targets and removed the shadow copy of the
  second.\<close>

definition generatedDisk :: fs where
  "generatedDisk = [''a.ts'' \<mapsto> textFile ''A2'', ''a.ts.tmp'' \<mapsto> textFile ''A'',
                    ''b.ts'' \<mapsto> textFile ''B2'',
                    ''c.ts'' \<mapsto> textFile ''C2'', ''c.ts.tmp'' \<mapsto> textFile ''C'']"

text \<open>Two targets with their shadow copies, and a generator that rewrites both.\<close>

definition snapshotDisk :: fs where
  "snapshotDisk = [''a.ts'' \<mapsto> textFile ''A'', ''a.ts.tmp'' \<mapsto> textFile ''A'',
                   ''b.ts'' \<mapsto> textFile ''B'', ''b.ts.tmp'' \<mapsto> textFile ''B'']"

definition rewritingEnv :: env where
  "rewritingEnv = sampleEnv\<lparr>execa := (\<lambda>cmd args d.
     (True, d(''a.ts'' \<mapsto> textFile ''A2'', ''b.ts'' \<mapsto> textFile ''B2'')))\<rparr>"

section \<open>Lemmas about the calls and the loops\<close>

lemma disk_emit_event [simp]: "disk (emit_event e w) = disk w"
  by (simp add: emit_event_def)

lemma exitCode_emit_event [simp]: "exitCode (emit_event e w) = exitCode w"
  by (simp add: emit_event_def)

lemma trace_emit_event [simp]: "trace (emit_event e w) = trace w @ [e]"
  by (simp add: emit_event_def)

lemma log_emit: "log env p m w = emit_event (logEvent env p m) w"
  by (simp add: log_def logEvent_def Let_def)

lemma disk_log [simp]: "disk (log env p m w) = disk w"
  by (simp add: log_emit)

lemma exitCode_log [simp]: "exitCode (log env p m w) = exitCode w"
  by (simp add: log_emit)

lemma trace_log [simp]: "trace (log env p m w) = trace w @ [logEvent env p m]"
  by (simp add: log_emit)

lemma validate_disk [simp]: "disk (snd (validate env files w)) = disk w"
  by (induction files arbitrary: w) (auto simp: pathExists_def Let_def split: prod.splits bool.splits)

lemma validate_exitCode [simp]: "exitCode (snd (validate env files w)) = exitCode w"
  by (induction files arbitrary: w) (auto simp: pathExists_def Let_def split: prod.splits bool.splits)

lemma validate_ok:
  "list_all (passes env (disk w)) files \<Longrightarrow>
   validate env files w = (Inr (), w\<lparr>trace := trace w @ probes files\<rparr>)"
  by (induction files arbitrary: w)
     (auto simp: pathExists_def Let_def passes_def probes_def emit_event_def split: prod.splits bool.splits)

lemma validate_fail:
  "\<not> list_all (passes env (disk w)) files \<Longrightarrow>
   \<exists>e k. validate env files w = (Inl e, w\<lparr>trace := trace w @ probes (take k files)\<rparr>)"
proof (induction files arbitrary: w)
  case Nil
  then show ?case by simp
next
  case (Cons f files)
  show ?case
  proof (cases "passes env (disk w) f")
    case True
    let ?w1 = "emit_event (PathExists (getTmpFileName f)) w"
    from True Cons.prems have "\<not> list_all (passes env (disk ?w1)) files" by simp
    from Cons.IH[OF this] obtain e k where
      "validate env files ?w1 = (Inl e, ?w1\<lparr>trace := trace ?w1 @ probes (take k files)\<rparr>)" by blast
    with True have "validate env (f # files) w = (Inl e, w\<lparr>trace := trace w @ probes (take (Suc k) (f # files))\<rparr>)"
      by (simp add: passes_def pathExists_def probes_def emit_event_def)
    then show ?thesis by blast
  next
    case False
    then consider "isPathCwd env f" | "\<not> isPathCwd env f" "\<not> isPathInside env f"
      | "\<not> isPathCwd env f" "isPathInside env f" "disk w (getTmpFileName f) \<noteq> None"
      by (auto simp: passes_def)
    then show ?thesis
    proof cases
      case 1
      then have "validate env (f # files) w = (Inl (Error (quoted f @ '': Cannot copy the current working directory.'')), w\<lparr>trace := trace w @ probes (take 0 (f # files))\<rparr>)"
        by (simp add: probes_def)
      then show ?thesis by blast
    next
      case 2
      then have "\<exists>e. validate env (f # files) w = (Inl e, w\<lparr>trace := trace w @ probes (take 0 (f # files))\<rparr>)"
        by (simp add: probes_def Let_def)
      then show ?thesis by blast
    next
      case 3
      then have "\<exists>e. validate env (f # files) w = (Inl e, w\<lparr>trace := trace w @ probes (take 1 (f # files))\<rparr>)"
        by (auto simp add: probes_def pathExists_def emit_event_def Let_def)
      then show ?thesis by blast
    qed
  qed
qed

lemma validate_Inr:
  assumes "validate env files w = (Inr u, w')"
  shows "list_all (passes env (disk w)) files \<and> w' = w\<lparr>trace := trace w @ probes files\<rparr>"
proof (cases "list_all (passes env (disk w)) files")
  case True
  with validate_ok[OF True] assms show ?thesis by simp
next
  case False
  from validate_fail[OF False] assms show ?thesis by auto
qed

lemma getTmpFileName_inj [simp]: "getTmpFileName f = getTmpFileName g \<longleftrightarrow> f = g"
  by (simp add: getTmpFileName_def)

lemma getTmpFileName_neq [simp]: "getTmpFileName f \<noteq> f" "f \<noteq> getTmpFileName f"
  by (simp_all add: getTmpFileName_def)

lemma snapshot_dry:
  "snapshot env True files w = (Inr (), w\<lparr>trace := trace w @ map (copyLine env) files\<rparr>)"
  by (induction files arbitrary: w) (simp_all add: Let_def copyLine_def log_emit emit_event_def)

lemma restore_dry:
  "restore env True files w = (Inr (), w\<lparr>trace := trace w @ map (moveLine env) files\<rparr>)"
  by (induction files arbitrary: w) (simp_all add: Let_def moveLine_def log_emit emit_event_def)

lemma diffLoop_dry:
  "diffLoop env True files acc w = (Inr acc, w\<lparr>trace := trace w @ map (diffLine env) files\<rparr>)"
  by (induction files arbitrary: w) (simp_all add: Let_def diffLine_def log_emit emit_event_def)


lemma diffLoop_exitCode [simp]: "exitCode (snd (diffLoop env dry files acc w)) = exitCode w"
  by (induction files arbitrary: w acc)
     (auto simp: Let_def readFile_def split: prod.splits sum.splits option.splits)

lemma main_precondition_failure:
  assumes "\<not> list_all (passes env (disk w)) (globby env (paths fl) (disk w))"
  shows "\<exists>e k. main env fl (cmd # args) w =
           (Rejected e, w\<lparr>trace := trace w @ Globby (paths fl) #
                               probes (take k (globby env (paths fl) (disk w)))\<rparr>)"
proof -
  let ?files = "globby env (paths fl) (disk w)"
  let ?w1 = "emit_event (Globby (paths fl)) w"
  from assms have ne: "?files \<noteq> []" by auto
  from assms have "\<not> list_all (passes env (disk ?w1)) ?files" by simp
  from validate_fail[OF this] obtain e k where
    "validate env ?files ?w1 = (Inl e, ?w1\<lparr>trace := trace ?w1 @ probes (take k ?files)\<rparr>)"
    by blast
  with ne have "main env fl (cmd # args) w =
      (Rejected e, w\<lparr>trace := trace w @ Globby (paths fl) # probes (take k ?files)\<rparr>)"
    by (simp add: main_def globby_call_def emit_event_def)
  then show ?thesis by blast
qed

lemma quiet_logEvent [simp]: "quiet (logEvent env p m)"
  by (simp add: logEvent_def)

lemma quiet_lines [simp]:
  "quiet (copyLine env f)" "quiet (diffLine env f)" "quiet (moveLine env f)" "quiet (emitLine env i)"
  by (simp_all add: copyLine_def diffLine_def moveLine_def emitLine_def)

lemma quiet_probes [simp]: "list_all quiet (probes files)"
  by (simp add: probes_def list_all_iff)

lemma tryFinally_dry:
  "tryFinally (tryBlock env True cmd args files) (restore env True files) w =
     (Inr (), w\<lparr>trace := trace w @ map (diffLine env) files @ map (moveLine env) files\<rparr>)"
  by (simp add: tryFinally_def tryBlock_def diffLoop_dry restore_dry)

lemma main_dry_passes:
  assumes "dryRun fl" "globby env (paths fl) (disk w) = files" "files \<noteq> []"
    "list_all (passes env (disk w)) files"
  shows "main env fl (cmd # args) w =
           (Resolved, w\<lparr>trace := trace w @ Globby (paths fl) # probes files @
              map (copyLine env) files @ emitLine env (cmd # args) #
              map (diffLine env) files @ map (moveLine env) files\<rparr>)"
proof -
  let ?w1 = "emit_event (Globby (paths fl)) w"
  from assms(4) have "list_all (passes env (disk ?w1)) files" by simp
  from validate_ok[OF this] assms(1,2,3) show ?thesis
    by (simp add: main_def globby_call_def snapshot_dry tryFinally_dry log_emit emitLine_def
        emit_event_def)
qed

lemma validate_prefix:
  "list_all (passes env (disk w)) pre \<Longrightarrow>
   validate env (pre @ rest) w = validate env rest (w\<lparr>trace := trace w @ probes pre\<rparr>)"
  by (induction pre arbitrary: w)
     (auto simp: passes_def pathExists_def probes_def emit_event_def Let_def)

lemma main_validate_Inl:
  assumes "globby env (paths fl) (disk w) = files" "files \<noteq> []"
    "validate env files (emit_event (Globby (paths fl)) w) = (Inl e, w')"
  shows "main env fl (cmd # args) w = (Rejected e, w')"
  using assms by (simp add: main_def globby_call_def)

lemma isMove_logEvent [simp]: "\<not> isMove (logEvent env p m)"
  by (simp add: logEvent_def)

lemma restore_append:
  "restore env dry (pre @ rest) w =
     (case restore env dry pre w of
        (Inl e, w1) \<Rightarrow> (Inl e, w1)
      | (Inr u, w1) \<Rightarrow> restore env dry rest w1)"
  by (induction pre arbitrary: w) (auto simp: Let_def split: prod.splits sum.splits)

lemma restore_missing:
  assumes "disk w (getTmpFileName f) = None"
  shows "restore env False (f # post) w =
           (Inl (ENOENT (getTmpFileName f)), w\<lparr>trace := trace w @ moveEvents env f\<rparr>)"
  using assms by (simp add: Let_def moveFile_def log_emit moveLine_def emit_event_def moveEvents_def)

lemma restore_present:
  assumes "disk w (getTmpFileName f) = Some n"
  shows "restore env False (f # post) w =
           restore env False post
             (w\<lparr>trace := trace w @ moveEvents env f,
                disk := ((disk w)(f \<mapsto> n))(getTmpFileName f := None)\<rparr>)"
  using assms by (simp add: Let_def moveFile_def log_emit moveLine_def emit_event_def moveEvents_def)


lemma restore_moves:
  "\<exists>evs k. trace (snd (restore env False files w)) = trace w @ evs \<and> k \<le> length files
     \<and> filter isMove evs = map (\<lambda>f. MoveFile (getTmpFileName f) f) (take k files)
     \<and> (fst (restore env False files w) = Inr () \<longrightarrow> k = length files)"
proof (induction files arbitrary: w)
  case Nil
  then show ?case by simp
next
  case (Cons f files)
  show ?case
  proof (cases "disk w (getTmpFileName f)")
    case None
    from restore_missing[OF None, of env files]
    have "trace (snd (restore env False (f # files) w)) = trace w @ moveEvents env f
        \<and> Suc 0 \<le> length (f # files)
        \<and> filter isMove (moveEvents env f) =
            map (\<lambda>f. MoveFile (getTmpFileName f) f) (take (Suc 0) (f # files))
        \<and> (fst (restore env False (f # files) w) = Inr () \<longrightarrow> Suc 0 = length (f # files))"
      by (simp add: moveEvents_def moveLine_def)
    then show ?thesis by blast
  next
    case (Some n)
    let ?w1 = "w\<lparr>trace := trace w @ moveEvents env f,
                  disk := ((disk w)(f \<mapsto> n))(getTmpFileName f := None)\<rparr>"
    from Cons.IH[of ?w1] obtain evs k where
      t: "trace (snd (restore env False files ?w1)) = trace ?w1 @ evs" and k: "k \<le> length files"
      and m: "filter isMove evs = map (\<lambda>f. MoveFile (getTmpFileName f) f) (take k files)"
      and a: "fst (restore env False files ?w1) = Inr () \<longrightarrow> k = length files" by blast
    from restore_present[OF Some, of env files] t k m a
    have "trace (snd (restore env False (f # files) w)) = trace w @ (moveEvents env f @ evs)
        \<and> Suc k \<le> length (f # files)
        \<and> filter isMove (moveEvents env f @ evs) =
            map (\<lambda>f. MoveFile (getTmpFileName f) f) (take (Suc k) (f # files))
        \<and> (fst (restore env False (f # files) w) = Inr () \<longrightarrow> Suc k = length (f # files))"
      by (simp add: moveEvents_def moveLine_def)
    then show ?thesis by blast
  qed
qed


lemma snapshot_trace:
  "\<exists>evs. trace (snd (snapshot env dry files w)) = trace w @ evs \<and> list_all (\<lambda>ev. \<not> isMove ev) evs"
proof (induction files arbitrary: w)
  case Nil
  then show ?case by simp
next
  case (Cons f files)
  let ?wl = "log env ''copy'' (quoted f @ '' -> '' @ quoted (getTmpFileName f)) w"
  show ?case
  proof (cases "dry \<or> fst (copyFile f (getTmpFileName f) ?wl) = Inr ()")
    case True
    then obtain w1 ev1 where
      step: "snapshot env dry (f # files) w = snapshot env dry files w1"
      and t1: "trace w1 = trace w @ ev1" and q1: "list_all (\<lambda>ev. \<not> isMove ev) ev1"
      by (cases dry)
         (auto simp: Let_def copyFile_def log_emit split: option.splits if_splits)
    from Cons.IH[of w1] obtain evs where
      "trace (snd (snapshot env dry files w1)) = trace w1 @ evs" "list_all (\<lambda>ev. \<not> isMove ev) evs"
      by blast
    with step t1 q1 have "trace (snd (snapshot env dry (f # files) w)) = trace w @ (ev1 @ evs)
        \<and> list_all (\<lambda>ev. \<not> isMove ev) (ev1 @ evs)" by simp
    then show ?thesis by blast
  next
    case False
    then have "trace (snd (snapshot env dry (f # files) w)) = trace w @ copyEvents env f"
      by (auto simp: Let_def copyFile_def log_emit copyEvents_def copyLine_def
          split: option.splits if_splits)
    moreover have "list_all (\<lambda>ev. \<not> isMove ev) (copyEvents env f)"
      by (simp add: copyEvents_def copyLine_def)
    ultimately show ?thesis by blast
  qed
qed

lemma snapshot_keeps:
  "disk w p \<noteq> None \<Longrightarrow> disk (snd (snapshot env dry files w)) p \<noteq> None"
  by (induction files arbitrary: w)
     (auto simp: Let_def copyFile_def split: option.splits if_splits)

lemma snapshot_Inl:
  "snapshot env False files w = (Inl e, w') \<Longrightarrow>
   \<exists>pre f post. files = pre @ f # post \<and> (e = ENOENT f \<or> e = EACCES f)
      \<and> (\<forall>g\<in>set pre. disk w' (getTmpFileName g) \<noteq> None)"
proof (induction files arbitrary: w)
  case Nil
  then show ?case by simp
next
  case (Cons f files)
  let ?wl = "log env ''copy'' (quoted f @ '' -> '' @ quoted (getTmpFileName f)) w"
  show ?case
  proof (cases "fst (copyFile f (getTmpFileName f) ?wl)")
    case (Inl e1)
    with Cons.prems have "e = ENOENT f \<or> e = EACCES f"
      by (auto simp: Let_def copyFile_def split: option.splits if_splits)
    then have "f # files = [] @ f # files \<and> (e = ENOENT f \<or> e = EACCES f)
        \<and> (\<forall>g\<in>set []. disk w' (getTmpFileName g) \<noteq> None)" by simp
    then show ?thesis by blast
  next
    case (Inr u)
    then obtain w1 where c: "copyFile f (getTmpFileName f) ?wl = (Inr (), w1)"
      by (cases "copyFile f (getTmpFileName f) ?wl") auto
    then have pres: "disk w1 (getTmpFileName f) \<noteq> None"
      by (auto simp: copyFile_def Let_def split: option.splits if_splits)
    from c Cons.prems have s: "snapshot env False files w1 = (Inl e, w')" by (simp add: Let_def)
    from Cons.IH[OF s] obtain pre g post where
      f: "files = pre @ g # post" and e: "e = ENOENT g \<or> e = EACCES g"
      and p: "\<forall>h\<in>set pre. disk w' (getTmpFileName h) \<noteq> None" by blast
    from snapshot_keeps[OF pres, of env False files] s
    have "disk w' (getTmpFileName f) \<noteq> None" by simp
    with f e p have "f # files = (f # pre) @ g # post \<and> (e = ENOENT g \<or> e = EACCES g)
        \<and> (\<forall>h\<in>set (f # pre). disk w' (getTmpFileName h) \<noteq> None)" by simp
    then show ?thesis by blast
  qed
qed

lemma tryFinally_snd: "snd (tryFinally body cleanup w) = snd (cleanup (snd (body w)))"
  by (simp add: tryFinally_def split: prod.splits sum.splits)

lemma tryFinally_fst:
  "fst (tryFinally body cleanup w) =
     (case fst (cleanup (snd (body w))) of Inl e \<Rightarrow> Inl e | Inr u \<Rightarrow> fst (body w))"
  by (simp add: tryFinally_def split: prod.splits sum.splits)



lemma main_reaches_emit:
  assumes "globby env (paths fl) (disk w) = files" "files \<noteq> []"
    and "validate env files (emit_event (Globby (paths fl)) w) = (Inr (), w2)"
    and "snapshot env (dryRun fl) files w2 = (Inr (), w3)"
  shows "main env fl (cmd # args) w =
           (case tryFinally (tryBlock env (dryRun fl) cmd args files)
                   (restore env (dryRun fl) files)
                   (log env ''emit'' (join '' '' (cmd # args)) w3) of
              (Inl e, w4) \<Rightarrow> (Rejected e, w4)
            | (Inr u, w4) \<Rightarrow> (Resolved, w4))"
  using assms by (simp add: main_def globby_call_def)

lemma main_reaches_emit_snd:
  assumes "globby env (paths fl) (disk w) = files" "files \<noteq> []"
    and "validate env files (emit_event (Globby (paths fl)) w) = (Inr (), w2)"
    and "snapshot env (dryRun fl) files w2 = (Inr (), w3)"
  shows "snd (main env fl (cmd # args) w) =
           snd (restore env (dryRun fl) files
                  (snd (tryBlock env (dryRun fl) cmd args files
                          (log env ''emit'' (join '' '' (cmd # args)) w3))))"
proof -
  have "snd (main env fl (cmd # args) w) =
          snd (tryFinally (tryBlock env (dryRun fl) cmd args files)
                   (restore env (dryRun fl) files)
                   (log env ''emit'' (join '' '' (cmd # args)) w3))"
    by (simp add: main_reaches_emit[OF assms] split: prod.splits sum.splits)
  then show ?thesis by (simp add: tryFinally_snd)
qed



section \<open>Lemmas about the line diff\<close>

text \<open>Tokens are the text cut into pieces: their concatenation is the text, and only the
  empty text has none.\<close>

lemma concat_splitNewlines: "concat (splitNewlines cur s) = cur @ s"
  by (induction s arbitrary: cur) (auto simp: neq_Nil_conv)

lemma splitNewlines_nonempty: "splitNewlines cur s \<noteq> []"
  by (induction s arbitrary: cur) auto

lemma concat_mergeTokens: "concat (mergeTokens xs) = concat xs"
  by (induction xs rule: mergeTokens.induct) auto

lemma concat_butlast_empty: "xs \<noteq> [] \<Longrightarrow> last xs = [] \<Longrightarrow> concat (butlast xs) = concat xs"
  by (induction xs) auto

lemma concat_tokenize: "concat (tokenize s) = s"
  by (simp add: tokenize_def Let_def concat_mergeTokens concat_butlast_empty
      splitNewlines_nonempty concat_splitNewlines)

lemma concat_removeEmpty: "concat (removeEmpty xs) = concat xs"
  by (induction xs) (auto simp: removeEmpty_def)

lemma concat_tokens: "concat (removeEmpty (tokenize s)) = s"
  by (simp add: concat_removeEmpty concat_tokenize)

lemma tokens_Nil_iff: "removeEmpty (tokenize s) = [] \<longleftrightarrow> s = []"
proof
  assume "removeEmpty (tokenize s) = []"
  then have "concat (removeEmpty (tokenize s)) = []" by simp
  then show "s = []" by (simp add: concat_tokens)
next
  assume "s = []"
  then show "removeEmpty (tokenize s) = []" by (simp add: tokenize_def removeEmpty_def)
qed

lemma commonLoop_same_aux:
  "ys = xs \<Longrightarrow> op = np \<Longrightarrow> - 1 \<le> np \<Longrightarrow> np < int (length xs) \<Longrightarrow>
   commonLoop xs ys np op c =
     (int (length xs) - 1, int (length xs) - 1, c + nat (int (length xs) - 1 - np))"
proof (induction xs ys np op c rule: commonLoop.induct)
  case (1 xs ys np op c)
  show ?case
  proof (cases "np + 1 < int (length xs)")
    case True
    with 1 show ?thesis by (subst commonLoop.simps) (simp add: nat_diff_distrib')
  next
    case False
    with 1 show ?thesis by (subst commonLoop.simps) simp
  qed
qed

lemma commonLoop_same:
  "- 1 \<le> np \<Longrightarrow> np < int (length xs) \<Longrightarrow>
   commonLoop xs xs np np c =
     (int (length xs) - 1, int (length xs) - 1, c + nat (int (length xs) - 1 - np))"
  by (rule commonLoop_same_aux) simp_all

lemma lineDiff_same:
  "lineDiff s s =
     Some [\<lparr>value = s, count = length (removeEmpty (tokenize s)), added = False, removed = False\<rparr>]"
proof -
  let ?ts = "removeEmpty (tokenize s)"
  have "commonLoop ?ts ?ts (- 1) (- 1) 0 = (int (length ?ts) - 1, int (length ?ts) - 1, 0 + nat (int (length ?ts) - 1 - (- 1)))"
    by (rule commonLoop_same) simp_all
  then show ?thesis
    by (simp add: lineDiff_def Let_def extractCommon_def concat_tokens)
qed

lemma commonLoop_old_empty: "commonLoop ns [] np (- 1) c = (np, - 1, c)"
  by (subst commonLoop.simps) simp

lemma diagonalLoop_skip:
  "diagonalLoop ns [] e (e - 2 * int m) (Map.empty(e - 1 \<mapsto> p)) =
   diagonalLoop ns [] e e (Map.empty(e - 1 \<mapsto> p))"
proof (induction m)
  case 0
  then show ?case by simp
next
  case (Suc m)
  let ?k = "e - 2 * int (Suc m)"
  let ?B = "Map.empty(e - 1 \<mapsto> p)"
  have k: "?k \<le> e" "?k - 1 \<noteq> e - 1" "?k \<noteq> e - 1" by presburger+
  have "diagonalLoop ns [] e ?k ?B = diagonalLoop ns [] e (?k + 2) ?B"
    using k by (subst diagonalLoop.simps) (auto simp: Let_def split: option.splits)
  also have "?k + 2 = e - 2 * int m" by simp
  finally show ?case using Suc.IH by simp
qed

lemma pushComponent_additions: "pushComponent (additions n) True False = additions (Suc n)"
  by (simp add: pushComponent_def additions_def)

lemma diagonalLoop_last:
  assumes "1 \<le> e" "e \<le> int (length ns)"
  shows "diagonalLoop ns [] e e (Map.empty(e - 1 \<mapsto> \<lparr>newPos = e - 2, components = additions (nat (e - 1))\<rparr>)) =
           (if e = int (length ns) then Inl (buildValues (additions (nat e)) ns [])
            else Inr (Map.empty(e \<mapsto> \<lparr>newPos = e - 1, components = additions (nat e)\<rparr>)))"
proof -
  from assms have s: "Suc (nat (e - 1)) = nat e" by simp
  have stop: "diagonalLoop ns [] e (e + 2) B = Inr B" for B
    by (subst diagonalLoop.simps) simp
  from assms show ?thesis
    by (subst diagonalLoop.simps)
       (simp add: Let_def extractCommon_def commonLoop_old_empty pushComponent_additions s stop)
qed

lemma editLoop_old_empty:
  assumes "1 \<le> e" "e \<le> int (length ns)"
  shows "editLoop ns [] e (int (length ns))
           (Map.empty(e - 1 \<mapsto> \<lparr>newPos = e - 2, components = additions (nat (e - 1))\<rparr>)) =
         Some (buildValues (additions (length ns)) ns [])"
  using assms
proof (induction "nat (int (length ns) - e)" arbitrary: e)
  case 0
  then have e: "e = int (length ns)" by simp
  have d: "diagonalLoop ns [] e (- e)
             (Map.empty(e - 1 \<mapsto> \<lparr>newPos = e - 2, components = additions (nat (e - 1))\<rparr>)) =
           Inl (buildValues (additions (length ns)) ns [])"
    using diagonalLoop_skip[of ns e "nat e"] diagonalLoop_last[OF "0.prems"] "0.prems" e by simp
  show ?case using "0.prems"
    by (subst editLoop.simps) (simp add: d)
next
  case (Suc x)
  then have lt: "e < int (length ns)" and x: "x = nat (int (length ns) - (e + 1))" by linarith+
  have d: "diagonalLoop ns [] e (- e)
             (Map.empty(e - 1 \<mapsto> \<lparr>newPos = e - 2, components = additions (nat (e - 1))\<rparr>)) =
           Inr (Map.empty(e \<mapsto> \<lparr>newPos = e - 1, components = additions (nat e)\<rparr>))"
    using diagonalLoop_skip[of ns e "nat e"] diagonalLoop_last[OF Suc.prems] Suc.prems lt by simp
  have "editLoop ns [] (e + 1) (int (length ns))
           (Map.empty((e + 1) - 1 \<mapsto> \<lparr>newPos = (e + 1) - 2, components = additions (nat ((e + 1) - 1))\<rparr>)) =
         Some (buildValues (additions (length ns)) ns [])"
    using Suc.prems lt by (intro Suc.hyps(1)[OF x]) simp_all
  then show ?case using Suc.prems
    by (subst editLoop.simps) (simp add: d)
qed

lemma buildValues_additions:
  "n = length ns \<Longrightarrow> 0 < n \<Longrightarrow>
   buildValues (additions n) ns [] = [\<lparr>value = concat ns, count = n, added = True, removed = False\<rparr>]"
  by (simp add: buildValues_def additions_def Let_def)

lemma lineDiff_old_empty:
  assumes "new \<noteq> []"
  shows "lineDiff [] new =
           Some [\<lparr>value = new, count = length (removeEmpty (tokenize new)),
                  added = True, removed = False\<rparr>]"
proof -
  let ?ns = "removeEmpty (tokenize new)"
  from assms have ne: "?ns \<noteq> []" by (simp add: tokens_Nil_iff)
  then have len: "1 \<le> int (length ?ns)" by (cases ?ns) simp_all
  have old: "removeEmpty (tokenize []) = []" by (simp add: tokens_Nil_iff)
  have e: "editLoop ?ns [] 1 (int (length ?ns))
             (Map.empty(1 - 1 \<mapsto> \<lparr>newPos = 1 - 2, components = additions (nat (1 - 1))\<rparr>)) =
           Some (buildValues (additions (length ?ns)) ?ns [])"
    by (rule editLoop_old_empty) (use len in simp_all)
  have b: "buildValues (additions (length ?ns)) ?ns [] =
             [\<lparr>value = concat ?ns, count = length ?ns, added = True, removed = False\<rparr>]"
    by (rule buildValues_additions) (use ne in simp_all)
  from ne e b show ?thesis
    by (simp add: lineDiff_def old Let_def extractCommon_def commonLoop_old_empty additions_def
        concat_tokens)
qed

lemma commonLoop_new_empty: "commonLoop [] os (- 1) op c = (- 1, op, c)"
  by (subst commonLoop.simps) simp

lemma pushComponent_removals: "pushComponent (removals n) False True = removals (Suc n)"
  by (simp add: pushComponent_def removals_def)

lemma diagonalLoop_rest_aux:
  "e - k + 2 \<le> int n \<Longrightarrow> - e < k - 1 \<Longrightarrow>
   diagonalLoop [] os e k (Map.empty(- e \<mapsto> p)) = Inr (Map.empty(- e \<mapsto> p))"
proof (induction n arbitrary: k)
  case 0
  then have "e < k" by simp
  then show ?case by (subst diagonalLoop.simps) simp
next
  case (Suc n)
  show ?case
  proof (cases "k \<le> e")
    case False
    then show ?thesis by (subst diagonalLoop.simps) simp
  next
    case True
    have b: "e - (k + 2) + 2 \<le> int n" using Suc.prems(1) by simp
    have next_ok: "- e < (k + 2) - 1" using Suc.prems(2) by simp
    have "diagonalLoop [] os e k (Map.empty(- e \<mapsto> p)) =
          diagonalLoop [] os e (k + 2) (Map.empty(- e \<mapsto> p))"
      using True Suc.prems(2)
      by (subst diagonalLoop.simps) (auto simp: Let_def split: option.splits)
    also have "\<dots> = Inr (Map.empty(- e \<mapsto> p))"
      by (rule Suc.IH[OF b next_ok])
    finally show ?thesis .
  qed
qed

lemma diagonalLoop_rest:
  "- e < k - 1 \<Longrightarrow>
   diagonalLoop [] os e k (Map.empty(- e \<mapsto> p)) = Inr (Map.empty(- e \<mapsto> p))"
  by (rule diagonalLoop_rest_aux[where n = "nat (e - k + 2)"]) simp_all

lemma diagonalLoop_new_empty:
  assumes "1 \<le> e" "e \<le> int (length os)"
  shows "diagonalLoop [] os e (- e)
           (Map.empty(1 - e \<mapsto> \<lparr>newPos = - 1, components = removals (nat (e - 1))\<rparr>)) =
           (if e = int (length os) then Inl (buildValues (removals (nat e)) [] os)
            else Inr (Map.empty(- e \<mapsto> \<lparr>newPos = - 1, components = removals (nat e)\<rparr>)))"
proof -
  let ?p = "\<lparr>newPos = - 1, components = removals (nat (e - 1))\<rparr>"
  let ?q = "\<lparr>newPos = - 1, components = removals (nat e)\<rparr>"
  from assms have s: "Suc (nat (e - 1)) = nat e" by simp
  have second: "diagonalLoop [] os e (2 - e) ((Map.empty(1 - e \<mapsto> ?p))(- e \<mapsto> ?q)) =
                Inr (Map.empty(- e \<mapsto> ?q))"
  proof -
    have upd: "(((Map.empty(1 - e \<mapsto> ?p))(- e \<mapsto> ?q))(1 - e := None))(2 - e := None) =
               Map.empty(- e \<mapsto> ?q)"
      by (auto simp: fun_eq_iff)
    have "diagonalLoop [] os e (2 - e) ((Map.empty(1 - e \<mapsto> ?p))(- e \<mapsto> ?q)) =
          diagonalLoop [] os e (2 - e + 2) (Map.empty(- e \<mapsto> ?q))"
      using assms by (subst diagonalLoop.simps) (simp add: Let_def upd)
    also have "\<dots> = Inr (Map.empty(- e \<mapsto> ?q))"
      by (rule diagonalLoop_rest) simp
    finally show ?thesis .
  qed
  from assms show ?thesis
    by (subst diagonalLoop.simps)
       (simp add: Let_def extractCommon_def commonLoop_new_empty pushComponent_removals s second)
qed

lemma editLoop_new_empty:
  assumes "1 \<le> e" "e \<le> int (length os)"
  shows "editLoop [] os e (int (length os))
           (Map.empty(1 - e \<mapsto> \<lparr>newPos = - 1, components = removals (nat (e - 1))\<rparr>)) =
         Some (buildValues (removals (length os)) [] os)"
  using assms
proof (induction "nat (int (length os) - e)" arbitrary: e)
  case 0
  then have e: "e = int (length os)" by simp
  have d: "diagonalLoop [] os e (- e)
             (Map.empty(1 - e \<mapsto> \<lparr>newPos = - 1, components = removals (nat (e - 1))\<rparr>)) =
           Inl (buildValues (removals (length os)) [] os)"
    using diagonalLoop_new_empty[OF "0.prems"] e by simp
  show ?case using "0.prems"
    by (subst editLoop.simps) (simp add: d)
next
  case (Suc x)
  then have lt: "e < int (length os)" and x: "x = nat (int (length os) - (e + 1))" by linarith+
  have d: "diagonalLoop [] os e (- e)
             (Map.empty(1 - e \<mapsto> \<lparr>newPos = - 1, components = removals (nat (e - 1))\<rparr>)) =
           Inr (Map.empty(- e \<mapsto> \<lparr>newPos = - 1, components = removals (nat e)\<rparr>))"
    using diagonalLoop_new_empty[OF Suc.prems] lt by simp
  have "editLoop [] os (e + 1) (int (length os))
           (Map.empty(1 - (e + 1) \<mapsto> \<lparr>newPos = - 1, components = removals (nat ((e + 1) - 1))\<rparr>)) =
         Some (buildValues (removals (length os)) [] os)"
    using Suc.prems lt by (intro Suc.hyps(1)[OF x]) simp_all
  then show ?case using Suc.prems
    by (subst editLoop.simps) (simp add: d)
qed

lemma buildValues_removals:
  "n = length os \<Longrightarrow> 0 < n \<Longrightarrow>
   buildValues (removals n) [] os = [\<lparr>value = concat os, count = n, added = False, removed = True\<rparr>]"
  by (simp add: buildValues_def removals_def Let_def)

lemma lineDiff_new_empty:
  assumes "old \<noteq> []"
  shows "lineDiff old [] =
           Some [\<lparr>value = old, count = length (removeEmpty (tokenize old)),
                  added = False, removed = True\<rparr>]"
proof -
  let ?os = "removeEmpty (tokenize old)"
  from assms have ne: "?os \<noteq> []" by (simp add: tokens_Nil_iff)
  then have len: "1 \<le> int (length ?os)" by (cases ?os) simp_all
  have new: "removeEmpty (tokenize []) = []" by (simp add: tokens_Nil_iff)
  have e: "editLoop [] ?os 1 (int (length ?os))
             (Map.empty(1 - 1 \<mapsto> \<lparr>newPos = - 1, components = removals (nat (1 - 1))\<rparr>)) =
           Some (buildValues (removals (length ?os)) [] ?os)"
    by (rule editLoop_new_empty) (use len in simp_all)
  have b: "buildValues (removals (length ?os)) [] ?os =
             [\<lparr>value = concat ?os, count = length ?os, added = False, removed = True\<rparr>]"
    by (rule buildValues_removals) (use ne in simp_all)
  from ne e b show ?thesis
    by (simp add: lineDiff_def new Let_def extractCommon_def commonLoop_new_empty removals_def
        concat_tokens)
qed

text \<open>Unfolding the script on a concrete input.\<close>

lemmas run_defs = main_def globby_call_def tryBlock_def tryFinally_def execa_call_def
  copyFile_def readFile_def moveFile_def pathExists_def log_def emit_event_def
  getTmpFileName_def Let_def onDisk_def

lemmas diff_defs = lineDiff_def tokenize_def removeEmpty_def extractCommon_def at_def
  pushComponent_def buildValues_def commonLoop.simps diagonalLoop.simps editLoop.simps

lemmas env_defs = sampleEnv_def wipingEnv_def writingEnv_def failingEnv_def rewritingEnv_def
  normalRun_def twoFiles_def cleanDisk_def staleDisk_def emptyFileDisk_def lockedDisk_def
  generatedDisk_def snapshotDisk_def textFile_def quoted_def

section \<open>Validation comes first, and a failure touches nothing\<close>

text \<open>
  C2. If one of the resolved files fails validation (it is the working directory, it
  is outside it, or a file already exists at its \<^verbatim>\<open>.tmp\<close> path), the run is rejected,
  the disk is as it was, and all the script has done is the glob and some of the
  \<^verbatim>\<open>pathExists\<close> checks: no file was copied and the command was not run. This holds
  for either value of the dry-run flag.
\<close>

theorem validation_failure_touches_nothing:
  assumes "f \<in> set (globby env (paths fl) (disk w))"
    and "isPathCwd env f \<or> \<not> isPathInside env f \<or> disk w (getTmpFileName f) \<noteq> None"
  shows "\<exists>e k. fst (main env fl (cmd # args) w) = Rejected e
           \<and> disk (snd (main env fl (cmd # args) w)) = disk w
           \<and> exitCode (snd (main env fl (cmd # args) w)) = exitCode w
           \<and> trace (snd (main env fl (cmd # args) w)) =
               trace w @ Globby (paths fl) #
                 map (\<lambda>g. PathExists (getTmpFileName g)) (take k (globby env (paths fl) (disk w)))"
proof -
  from assms have "\<not> list_all (passes env (disk w)) (globby env (paths fl) (disk w))"
    by (auto simp: list_all_iff passes_def)
  from main_precondition_failure[OF this, where cmd=cmd and args=args] show ?thesis
    by (auto simp: probes_def)
qed

text \<open>A stale \<^verbatim>\<open>schema.ts.tmp\<close> next to the only target: the run is rejected and has only
  looked.\<close>

theorem validation_failure_touches_nothing_witness:
  "''schema.ts'' \<in> set (globby sampleEnv (paths \<lparr>dryRun = False, paths = [''schema.ts'']\<rparr>)
                           (disk (onDisk staleDisk)))
   \<and> disk (onDisk staleDisk) (getTmpFileName ''schema.ts'') \<noteq> None
   \<and> (\<exists>e k. fst (main sampleEnv \<lparr>dryRun = False, paths = [''schema.ts'']\<rparr> [''gen''] (onDisk staleDisk))
               = Rejected e
         \<and> disk (snd (main sampleEnv \<lparr>dryRun = False, paths = [''schema.ts'']\<rparr> [''gen'']
                        (onDisk staleDisk))) = disk (onDisk staleDisk)
         \<and> exitCode (snd (main sampleEnv \<lparr>dryRun = False, paths = [''schema.ts'']\<rparr> [''gen'']
                        (onDisk staleDisk))) = exitCode (onDisk staleDisk)
         \<and> trace (snd (main sampleEnv \<lparr>dryRun = False, paths = [''schema.ts'']\<rparr> [''gen'']
                        (onDisk staleDisk))) =
             trace (onDisk staleDisk) @ Globby (paths \<lparr>dryRun = False, paths = [''schema.ts'']\<rparr>) #
               map (\<lambda>g. PathExists (getTmpFileName g))
                 (take k (globby sampleEnv (paths \<lparr>dryRun = False, paths = [''schema.ts'']\<rparr>)
                            (disk (onDisk staleDisk)))))"
proof -
  have h1: "''schema.ts'' \<in> set (globby sampleEnv (paths \<lparr>dryRun = False, paths = [''schema.ts'']\<rparr>)
                           (disk (onDisk staleDisk)))"
    by (simp add: sampleEnv_def staleDisk_def onDisk_def)
  have h2: "disk (onDisk staleDisk) (getTmpFileName ''schema.ts'') \<noteq> None"
    by (simp add: staleDisk_def onDisk_def getTmpFileName_def)
  from h2 have h3: "isPathCwd sampleEnv ''schema.ts'' \<or> \<not> isPathInside sampleEnv ''schema.ts''
     \<or> disk (onDisk staleDisk) (getTmpFileName ''schema.ts'') \<noteq> None" by blast
  from validation_failure_touches_nothing[OF h1 h3, of "''gen''" "[]"] h1 h2
  show ?thesis by blast
qed

section \<open>Dry run\<close>

text \<open>
  C6. With \<^verbatim>\<open>--dry-run\<close> the disk after the run is the disk before it, and the script
  makes none of the four calls (copy, command, read, move), however the run ends. When
  the run gets past validation it resolves, leaves the exit code alone, and prints
  exactly one line for each skipped step: a copy line per file, the emit line, a diff
  line per file and a move line per file.
\<close>

theorem dry_run_only_logs:
  assumes "dryRun fl"
  shows "disk (snd (main env fl input w)) = disk w
       \<and> take (length (trace w)) (trace (snd (main env fl input w))) = trace w
       \<and> list_all quiet (drop (length (trace w)) (trace (snd (main env fl input w))))
       \<and> (input \<noteq> [] \<and> globby env (paths fl) (disk w) \<noteq> []
            \<and> list_all (passes env (disk w)) (globby env (paths fl) (disk w)) \<longrightarrow>
          fst (main env fl input w) = Resolved
          \<and> exitCode (snd (main env fl input w)) = exitCode w
          \<and> trace (snd (main env fl input w)) =
              trace w @ Globby (paths fl) # probes (globby env (paths fl) (disk w)) @
              map (copyLine env) (globby env (paths fl) (disk w)) @ emitLine env input #
              map (diffLine env) (globby env (paths fl) (disk w)) @
              map (moveLine env) (globby env (paths fl) (disk w)))"
proof (cases input)
  case Nil
  then show ?thesis by (simp add: main_def log_emit)
next
  case (Cons cmd args)
  let ?files = "globby env (paths fl) (disk w)"
  show ?thesis
  proof (cases "?files = []")
    case True
    with Cons show ?thesis by (simp add: main_def globby_call_def)
  next
    case ne: False
    show ?thesis
    proof (cases "list_all (passes env (disk w)) ?files")
      case True
      from main_dry_passes[OF assms refl ne True, of cmd args] Cons show ?thesis
        by (auto simp: list_all_iff probes_def)
    next
      case False
      from main_precondition_failure[OF False, where cmd=cmd and args=args] Cons False
      show ?thesis
        by (auto simp: list_all_iff probes_def)
    qed
  qed
qed

text \<open>A dry run over one target: six events, none of them a copy, a command, a read or a
  move.\<close>

theorem dry_run_only_logs_witness:
  "dryRun \<lparr>dryRun = True, paths = [''schema.ts'']\<rparr>
   \<and> [''gen''] \<noteq> []
   \<and> globby sampleEnv (paths \<lparr>dryRun = True, paths = [''schema.ts'']\<rparr>) (disk (onDisk cleanDisk)) \<noteq> []
   \<and> list_all (passes sampleEnv (disk (onDisk cleanDisk)))
        (globby sampleEnv (paths \<lparr>dryRun = True, paths = [''schema.ts'']\<rparr>) (disk (onDisk cleanDisk)))
   \<and> disk (snd (main sampleEnv \<lparr>dryRun = True, paths = [''schema.ts'']\<rparr> [''gen''] (onDisk cleanDisk)))
        = cleanDisk
   \<and> list_all quiet
        (trace (snd (main sampleEnv \<lparr>dryRun = True, paths = [''schema.ts'']\<rparr> [''gen''] (onDisk cleanDisk))))
   \<and> fst (main sampleEnv \<lparr>dryRun = True, paths = [''schema.ts'']\<rparr> [''gen''] (onDisk cleanDisk))
        = Resolved
   \<and> exitCode (snd (main sampleEnv \<lparr>dryRun = True, paths = [''schema.ts'']\<rparr> [''gen''] (onDisk cleanDisk)))
        = None
   \<and> trace (snd (main sampleEnv \<lparr>dryRun = True, paths = [''schema.ts'']\<rparr> [''gen''] (onDisk cleanDisk)))
        = [Globby [''schema.ts''], PathExists ''schema.ts.tmp'', copyLine sampleEnv ''schema.ts'',
           emitLine sampleEnv [''gen''], diffLine sampleEnv ''schema.ts'',
           moveLine sampleEnv ''schema.ts'']"
proof -
  let ?fl = "\<lparr>dryRun = True, paths = [''schema.ts'']\<rparr>"
  have g: "globby sampleEnv (paths ?fl) (disk (onDisk cleanDisk)) = [''schema.ts'']"
    by (simp add: sampleEnv_def cleanDisk_def onDisk_def)
  have p: "list_all (passes sampleEnv (disk (onDisk cleanDisk))) [''schema.ts'']"
    by (simp add: passes_def sampleEnv_def cleanDisk_def onDisk_def getTmpFileName_def)
  have d: "dryRun ?fl" by simp
  from dry_run_only_logs[OF d, of sampleEnv "[''gen'']" "onDisk cleanDisk"] g p
  show ?thesis
    by (simp add: onDisk_def probes_def getTmpFileName_def)
qed

text \<open>
  C10. A dry run resolves the patterns and validates every file for real: it is
  rejected with the "no files found" error when nothing matches, and with the error of
  the first file that fails validation (working directory, outside the working
  directory, stale \<^verbatim>\<open>.tmp\<close> file, tested in that order); and whenever a precondition fails,
  the dry run and the normal run are the same run.
\<close>

theorem dry_run_checks_preconditions:
  "(globby env (paths fl) (disk w) = [] \<longrightarrow>
      fst (main env (fl\<lparr>dryRun := True\<rparr>) (cmd # args) w) =
        Rejected (Error (''No files found matching path/glob '' @
                         quoted (join '','' (paths fl)) @ ''.'')))
   \<and> (globby env (paths fl) (disk w) = pre @ f # post \<and> list_all (passes env (disk w)) pre \<longrightarrow>
       (isPathCwd env f \<longrightarrow>
          fst (main env (fl\<lparr>dryRun := True\<rparr>) (cmd # args) w) =
            Rejected (Error (quoted f @ '': Cannot copy the current working directory.'')))
     \<and> (\<not> isPathCwd env f \<and> \<not> isPathInside env f \<longrightarrow>
          fst (main env (fl\<lparr>dryRun := True\<rparr>) (cmd # args) w) =
            Rejected (Error (quoted f @
              '': Cannot copy files/directories outside the current working directory.'')))
     \<and> (\<not> isPathCwd env f \<and> isPathInside env f \<and> disk w (getTmpFileName f) \<noteq> None \<longrightarrow>
          fst (main env (fl\<lparr>dryRun := True\<rparr>) (cmd # args) w) =
            Rejected (Error (quoted (getTmpFileName f) @
              '' already exists. It must be deleted to proceed.''))))
   \<and> (globby env (paths fl) (disk w) = [] \<or>
        \<not> list_all (passes env (disk w)) (globby env (paths fl) (disk w)) \<longrightarrow>
       main env (fl\<lparr>dryRun := True\<rparr>) (cmd # args) w =
         main env (fl\<lparr>dryRun := False\<rparr>) (cmd # args) w)"
proof (intro conjI impI)
  assume "globby env (paths fl) (disk w) = []"
  then show "fst (main env (fl\<lparr>dryRun := True\<rparr>) (cmd # args) w) =
        Rejected (Error (''No files found matching path/glob '' @
                         quoted (join '','' (paths fl)) @ ''.''))"
    by (simp add: main_def globby_call_def)
next
  assume "globby env (paths fl) (disk w) = [] \<or>
        \<not> list_all (passes env (disk w)) (globby env (paths fl) (disk w))"
  then show "main env (fl\<lparr>dryRun := True\<rparr>) (cmd # args) w =
         main env (fl\<lparr>dryRun := False\<rparr>) (cmd # args) w"
  proof
    assume "globby env (paths fl) (disk w) = []"
    then show ?thesis by (simp add: main_def globby_call_def)
  next
    assume bad: "\<not> list_all (passes env (disk w)) (globby env (paths fl) (disk w))"
    let ?files = "globby env (paths fl) (disk w)"
    let ?w1 = "emit_event (Globby (paths fl)) w"
    from bad have ne: "?files \<noteq> []" by auto
    from bad have "\<not> list_all (passes env (disk ?w1)) ?files" by simp
    from validate_fail[OF this] obtain e w' where v: "validate env ?files ?w1 = (Inl e, w')"
      by blast
    have "main env (fl\<lparr>dryRun := True\<rparr>) (cmd # args) w = (Rejected e, w')"
      by (rule main_validate_Inl[where files = ?files]) (use ne v in simp_all)
    moreover have "main env (fl\<lparr>dryRun := False\<rparr>) (cmd # args) w = (Rejected e, w')"
      by (rule main_validate_Inl[where files = ?files]) (use ne v in simp_all)
    ultimately show ?thesis by simp
  qed
next
  assume a: "globby env (paths fl) (disk w) = pre @ f # post \<and> list_all (passes env (disk w)) pre"
  let ?w1 = "emit_event (Globby (paths fl)) w"
  let ?w2 = "?w1\<lparr>trace := trace ?w1 @ probes pre\<rparr>"
  from a have pre: "list_all (passes env (disk ?w1)) pre" by simp
  have v: "validate env (pre @ f # post) ?w1 = validate env (f # post) ?w2"
    by (rule validate_prefix[OF pre])
  {
    assume "isPathCwd env f"
    then have "validate env (pre @ f # post) ?w1 =
       (Inl (Error (quoted f @ '': Cannot copy the current working directory.'')), ?w2)"
      by (simp add: v)
    with a show "fst (main env (fl\<lparr>dryRun := True\<rparr>) (cmd # args) w) =
            Rejected (Error (quoted f @ '': Cannot copy the current working directory.''))"
      by (simp add: main_def globby_call_def)
  }
  {
    assume "\<not> isPathCwd env f \<and> \<not> isPathInside env f"
    then have "validate env (pre @ f # post) ?w1 =
       (Inl (Error (quoted f @
              '': Cannot copy files/directories outside the current working directory.'')), ?w2)"
      by (simp add: v)
    with a show "fst (main env (fl\<lparr>dryRun := True\<rparr>) (cmd # args) w) =
            Rejected (Error (quoted f @
              '': Cannot copy files/directories outside the current working directory.''))"
      by (simp add: main_def globby_call_def)
  }
  {
    assume "\<not> isPathCwd env f \<and> isPathInside env f \<and> disk w (getTmpFileName f) \<noteq> None"
    then have "fst (validate env (pre @ f # post) ?w1) =
       Inl (Error (quoted (getTmpFileName f) @
              '' already exists. It must be deleted to proceed.''))"
      by (auto simp add: v pathExists_def Let_def)
    with a show "fst (main env (fl\<lparr>dryRun := True\<rparr>) (cmd # args) w) =
            Rejected (Error (quoted (getTmpFileName f) @
              '' already exists. It must be deleted to proceed.''))"
      by (auto simp add: main_def globby_call_def split: prod.splits sum.splits)
  }
qed

text \<open>A dry run with a stale \<^verbatim>\<open>schema.ts.tmp\<close>: rejected with the stale-file error, exactly as
  the normal run is.\<close>

theorem dry_run_checks_preconditions_witness:
  "globby sampleEnv (paths \<lparr>dryRun = False, paths = [''schema.ts'']\<rparr>) (disk (onDisk staleDisk))
     = [] @ ''schema.ts'' # []
   \<and> list_all (passes sampleEnv (disk (onDisk staleDisk))) []
   \<and> \<not> isPathCwd sampleEnv ''schema.ts''
   \<and> isPathInside sampleEnv ''schema.ts''
   \<and> disk (onDisk staleDisk) (getTmpFileName ''schema.ts'') \<noteq> None
   \<and> fst (main sampleEnv (\<lparr>dryRun = False, paths = [''schema.ts'']\<rparr>\<lparr>dryRun := True\<rparr>) [''gen'']
            (onDisk staleDisk))
       = Rejected (Error (quoted (getTmpFileName ''schema.ts'') @
                          '' already exists. It must be deleted to proceed.''))
   \<and> main sampleEnv (\<lparr>dryRun = False, paths = [''schema.ts'']\<rparr>\<lparr>dryRun := True\<rparr>) [''gen'']
         (onDisk staleDisk)
       = main sampleEnv (\<lparr>dryRun = False, paths = [''schema.ts'']\<rparr>\<lparr>dryRun := False\<rparr>) [''gen'']
           (onDisk staleDisk)"
proof -
  let ?fl = "\<lparr>dryRun = False, paths = [''schema.ts'']\<rparr>"
  have g: "globby sampleEnv (paths ?fl) (disk (onDisk staleDisk)) = [] @ ''schema.ts'' # []"
    by (simp add: sampleEnv_def staleDisk_def onDisk_def)
  have c: "\<not> isPathCwd sampleEnv ''schema.ts''" "isPathInside sampleEnv ''schema.ts''"
    by (simp_all add: sampleEnv_def)
  have t: "disk (onDisk staleDisk) (getTmpFileName ''schema.ts'') \<noteq> None"
    by (simp add: staleDisk_def onDisk_def getTmpFileName_def)
  have np: "\<not> list_all (passes sampleEnv (disk (onDisk staleDisk)))
              (globby sampleEnv (paths ?fl) (disk (onDisk staleDisk)))"
    using t g by (simp add: passes_def)
  from dry_run_checks_preconditions[of sampleEnv ?fl "onDisk staleDisk" "''gen''" "[]" "[]"
      "''schema.ts''" "[]"] g c t np
  show ?thesis by simp metis
qed

section \<open>Restoration\<close>




section \<open>A failing command\<close>



section \<open>The life of a shadow copy\<close>

text \<open>
  C7 (as amended). Shadow copies are made only after every file has passed validation:
  a run whose validation fails ends there, with the disk untouched and nothing but
  the glob and \<^verbatim>\<open>pathExists\<close> calls made. Once the snapshot loop has completed, the run
  ends in the world the restore loop produces from whatever the execute and compare
  steps left, error or not; and the restore loop of a run that is not a dry run
  attempts one move per file, in list order, for a prefix of the list, which is the
  whole list when the loop completes. When a copy of the snapshot loop itself fails,
  there is no cleanup: the run is rejected with that error in the world the failed
  copy left, no move has been attempted, and the shadow copies of the files before
  the failing one are still on disk.
\<close>

theorem shadow_copy_lifecycle:
  assumes "globby env (paths fl) (disk w) = files" and "files \<noteq> []"
    and "validate env files (emit_event (Globby (paths fl)) w) = (rv, w2)"
    and "snapshot env (dryRun fl) files w2 = (rs, w3)"
    and "tryBlock env (dryRun fl) cmd args files
           (log env ''emit'' (join '' '' (cmd # args)) w3) = (rt, w4)"
  shows "(\<forall>e. rv = Inl e \<longrightarrow>
            main env fl (cmd # args) w = (Rejected e, w2) \<and> disk w2 = disk w
            \<and> (\<exists>evs. trace w2 = trace w @ evs \<and> list_all quiet evs))
       \<and> (\<forall>e. rv = Inr () \<and> rs = Inl e \<longrightarrow>
            main env fl (cmd # args) w = (Rejected e, w3)
            \<and> (\<exists>evs. trace w3 = trace w @ evs \<and> list_all (\<lambda>ev. \<not> isMove ev) evs)
            \<and> (\<exists>pre f post. files = pre @ f # post \<and> (e = ENOENT f \<or> e = EACCES f)
                  \<and> (\<forall>g\<in>set pre. disk w3 (getTmpFileName g) \<noteq> None)))
       \<and> (rv = Inr () \<and> rs = Inr () \<longrightarrow>
            snd (main env fl (cmd # args) w) = snd (restore env (dryRun fl) files w4))
       \<and> (\<not> dryRun fl \<longrightarrow>
            (\<exists>evs k. trace (snd (restore env False files w4)) = trace w4 @ evs \<and> k \<le> length files
               \<and> filter isMove evs = map (\<lambda>f. MoveFile (getTmpFileName f) f) (take k files)
               \<and> (fst (restore env False files w4) = Inr () \<longrightarrow> k = length files)))"
proof (intro conjI allI impI)
  fix e assume rv: "rv = Inl e"
  with assms(1,2,3) show "main env fl (cmd # args) w = (Rejected e, w2)"
    by (simp add: main_validate_Inl)
  from assms(3) have d: "disk w2 = disk (snd (validate env files (emit_event (Globby (paths fl)) w)))"
    by simp
  then show "disk w2 = disk w" by simp
  have "\<not> list_all (passes env (disk (emit_event (Globby (paths fl)) w))) files"
    using validate_ok[of env "emit_event (Globby (paths fl)) w" files] assms(3) rv by auto
  from validate_fail[OF this] assms(3) obtain k where
    "w2 = (emit_event (Globby (paths fl)) w)\<lparr>trace := trace (emit_event (Globby (paths fl)) w) @ probes (take k files)\<rparr>"
    by auto
  then have "trace w2 = trace w @ (Globby (paths fl) # probes (take k files))
      \<and> list_all quiet (Globby (paths fl) # probes (take k files))" by simp
  then show "\<exists>evs. trace w2 = trace w @ evs \<and> list_all quiet evs" by blast
next
  fix e assume a: "rv = Inr () \<and> rs = Inl e"
  with assms(1,2,3,4) show "main env fl (cmd # args) w = (Rejected e, w3)"
    by (simp add: main_def globby_call_def)
  from a assms(3) have w2: "w2 = (emit_event (Globby (paths fl)) w)\<lparr>trace := trace (emit_event (Globby (paths fl)) w) @ probes files\<rparr>"
    using validate_Inr by blast
  from snapshot_trace[of env "dryRun fl" files w2] assms(4) obtain evs where
    "trace w3 = trace w2 @ evs" "list_all (\<lambda>ev. \<not> isMove ev) evs" by auto
  with w2 have "trace w3 = trace w @ (Globby (paths fl) # probes files @ evs)
     \<and> list_all (\<lambda>ev. \<not> isMove ev) (Globby (paths fl) # probes files @ evs)"
    by (auto simp add: probes_def list_all_iff)
  then show "\<exists>evs. trace w3 = trace w @ evs \<and> list_all (\<lambda>ev. \<not> isMove ev) evs" by blast
  have nd: "\<not> dryRun fl"
  proof
    assume "dryRun fl"
    with assms(4) a show False by (simp add: snapshot_dry)
  qed
  with assms(4) a have "snapshot env False files w2 = (Inl e, w3)" by simp
  from snapshot_Inl[OF this]
  show "\<exists>pre f post. files = pre @ f # post \<and> (e = ENOENT f \<or> e = EACCES f)
          \<and> (\<forall>g\<in>set pre. disk w3 (getTmpFileName g) \<noteq> None)" .
next
  assume a: "rv = Inr () \<and> rs = Inr ()"
  with assms(3,4) have v: "validate env files (emit_event (Globby (paths fl)) w) = (Inr (), w2)"
    and s: "snapshot env (dryRun fl) files w2 = (Inr (), w3)" by simp_all
  from main_reaches_emit_snd[OF assms(1,2) v s, of cmd args] assms(5)
  show "snd (main env fl (cmd # args) w) = snd (restore env (dryRun fl) files w4)" by simp
next
  assume "\<not> dryRun fl"
  show "\<exists>evs k. trace (snd (restore env False files w4)) = trace w4 @ evs \<and> k \<le> length files
               \<and> filter isMove evs = map (\<lambda>f. MoveFile (getTmpFileName f) f) (take k files)
               \<and> (fst (restore env False files w4) = Inr () \<longrightarrow> k = length files)"
    by (rule restore_moves)
qed

text \<open>Two runs: one whose second target cannot be read, so that the copy loop fails after
  the first copy; and one that goes through and moves its only shadow copy back once.\<close>

theorem shadow_copy_lifecycle_witness:
  "globby sampleEnv (paths twoFiles) (disk (onDisk lockedDisk)) = [''a.ts'', ''b.ts'']
   \<and> [''a.ts'', ''b.ts''] \<noteq> []
   \<and> fst (validate sampleEnv [''a.ts'', ''b.ts''] (emit_event (Globby (paths twoFiles)) (onDisk lockedDisk)))
       = Inr ()
   \<and> fst (snapshot sampleEnv (dryRun twoFiles) [''a.ts'', ''b.ts'']
        (snd (validate sampleEnv [''a.ts'', ''b.ts'']
               (emit_event (Globby (paths twoFiles)) (onDisk lockedDisk)))))
       = Inl (EACCES ''b.ts'')
   \<and> main sampleEnv twoFiles [''gen''] (onDisk lockedDisk)
       = (Rejected (EACCES ''b.ts''),
          snd (snapshot sampleEnv (dryRun twoFiles) [''a.ts'', ''b.ts'']
                (snd (validate sampleEnv [''a.ts'', ''b.ts'']
                       (emit_event (Globby (paths twoFiles)) (onDisk lockedDisk))))))
   \<and> (\<exists>evs. trace (snd (snapshot sampleEnv (dryRun twoFiles) [''a.ts'', ''b.ts'']
                (snd (validate sampleEnv [''a.ts'', ''b.ts'']
                       (emit_event (Globby (paths twoFiles)) (onDisk lockedDisk))))))
              = trace (onDisk lockedDisk) @ evs
            \<and> list_all (\<lambda>ev. \<not> isMove ev) evs)
   \<and> globby writingEnv (paths normalRun) (disk (onDisk cleanDisk)) = [''schema.ts'']
   \<and> fst (validate writingEnv [''schema.ts''] (emit_event (Globby (paths normalRun)) (onDisk cleanDisk)))
       = Inr ()
   \<and> fst (snapshot writingEnv (dryRun normalRun) [''schema.ts'']
        (snd (validate writingEnv [''schema.ts''] (emit_event (Globby (paths normalRun)) (onDisk cleanDisk)))))
       = Inr ()
   \<and> disk (snd (main writingEnv normalRun [''gen''] (onDisk cleanDisk))) = cleanDisk
   \<and> filter isMove (trace (snd (main writingEnv normalRun [''gen''] (onDisk cleanDisk))))
       = [MoveFile ''schema.ts.tmp'' ''schema.ts'']"
proof -
  let ?v = "validate sampleEnv [''a.ts'', ''b.ts''] (emit_event (Globby (paths twoFiles)) (onDisk lockedDisk))"
  let ?s = "snapshot sampleEnv (dryRun twoFiles) [''a.ts'', ''b.ts''] (snd ?v)"
  let ?t = "tryBlock sampleEnv (dryRun twoFiles) ''gen'' [] [''a.ts'', ''b.ts'']
              (log sampleEnv ''emit'' (join '' '' [''gen'']) (snd ?s))"
  have a1: "globby sampleEnv (paths twoFiles) (disk (onDisk lockedDisk)) = [''a.ts'', ''b.ts'']"
    by (simp add: env_defs onDisk_def)
  have a2: "[''a.ts'', ''b.ts''] \<noteq> []" by simp
  have a3: "fst ?v = Inr ()" by (simp add: run_defs env_defs)
  then have a3': "?v = (Inr (), snd ?v)" by (metis prod.collapse)
  have a4: "fst ?s = Inl (EACCES ''b.ts'')" by (simp add: run_defs env_defs)
  then have a4': "?s = (Inl (EACCES ''b.ts''), snd ?s)" by (metis prod.collapse)
  have a5: "?t = (fst ?t, snd ?t)" by simp
  note A = shadow_copy_lifecycle[OF a1 a2 a3' a4' a5]
  from A have A1: "main sampleEnv twoFiles [''gen''] (onDisk lockedDisk)
       = (Rejected (EACCES ''b.ts''), snd ?s)" by blast
  from A have A2: "\<exists>evs. trace (snd ?s) = trace (onDisk lockedDisk) @ evs
            \<and> list_all (\<lambda>ev. \<not> isMove ev) evs" by blast
  let ?v' = "validate writingEnv [''schema.ts''] (emit_event (Globby (paths normalRun)) (onDisk cleanDisk))"
  let ?s' = "snapshot writingEnv (dryRun normalRun) [''schema.ts''] (snd ?v')"
  let ?t' = "tryBlock writingEnv (dryRun normalRun) ''gen'' [] [''schema.ts'']
              (log writingEnv ''emit'' (join '' '' [''gen'']) (snd ?s'))"
  have b1: "globby writingEnv (paths normalRun) (disk (onDisk cleanDisk)) = [''schema.ts'']"
    by (simp add: env_defs onDisk_def)
  have b2: "[''schema.ts''] \<noteq> []" by simp
  have b3: "fst ?v' = Inr ()" by (simp add: run_defs env_defs)
  then have b3': "?v' = (Inr (), snd ?v')" by (metis prod.collapse)
  have b4: "fst ?s' = Inr ()" by (simp add: run_defs env_defs)
  then have b4': "?s' = (Inr (), snd ?s')" by (metis prod.collapse)
  have b5: "?t' = (fst ?t', snd ?t')" by simp
  from shadow_copy_lifecycle[OF b1 b2 b3' b4' b5]
  have B: "snd (main writingEnv normalRun [''gen''] (onDisk cleanDisk))
       = snd (restore writingEnv (dryRun normalRun) [''schema.ts''] (snd ?t'))" by blast
  have B1: "disk (snd (restore writingEnv (dryRun normalRun) [''schema.ts''] (snd ?t'))) = cleanDisk"
    by (simp add: run_defs env_defs diff_defs)
  have B2: "filter isMove (trace (snd (restore writingEnv (dryRun normalRun) [''schema.ts''] (snd ?t'))))
       = [MoveFile ''schema.ts.tmp'' ''schema.ts'']"
    by (simp add: run_defs env_defs diff_defs)
  from B B1 B2 have B': "disk (snd (main writingEnv normalRun [''gen''] (onDisk cleanDisk))) = cleanDisk
   \<and> filter isMove (trace (snd (main writingEnv normalRun [''gen''] (onDisk cleanDisk))))
       = [MoveFile ''schema.ts.tmp'' ''schema.ts'']" by simp
  from a1 a2 a3 a4 A1 A2 b1 b3 b4 B' show ?thesis by blast
qed

text \<open>
  C7 as stated does not hold: the copy loop is outside the \<^verbatim>\<open>try\<close> block. With targets
  \<^verbatim>\<open>a.ts\<close> and \<^verbatim>\<open>b.ts\<close>, the second unreadable, the run copies \<^verbatim>\<open>a.ts\<close> to
  \<^verbatim>\<open>a.ts.tmp\<close>, is rejected when the copy of \<^verbatim>\<open>b.ts\<close> fails, and ends with
  \<^verbatim>\<open>a.ts.tmp\<close> on disk and no move attempted.
\<close>

theorem cleanup_counterexample:
  "fst (main sampleEnv twoFiles [''gen''] (onDisk lockedDisk)) = Rejected (EACCES ''b.ts'')
   \<and> disk (onDisk lockedDisk) (getTmpFileName ''a.ts'') = None
   \<and> CopyFile ''a.ts'' (getTmpFileName ''a.ts'')
        \<in> set (trace (snd (main sampleEnv twoFiles [''gen''] (onDisk lockedDisk))))
   \<and> disk (snd (main sampleEnv twoFiles [''gen''] (onDisk lockedDisk))) (getTmpFileName ''a.ts'')
        = Some (textFile ''A'')
   \<and> filter isMove (trace (snd (main sampleEnv twoFiles [''gen''] (onDisk lockedDisk)))) = []"
  by (simp add: run_defs env_defs)

section \<open>The restore loop stops at the first failing move\<close>

text \<open>
  C8. In the restore loop of a run that is not a dry run, if the moves of the files
  \<open>pre\<close> succeed and the shadow copy of the next file \<open>f\<close> is missing, the loop ends
  with the error of that move, whatever files \<open>post\<close> follow: the result does not
  depend on \<open>post\<close>, the last call made is the failed move of \<open>f\<close>, and the disk is the
  one the moves of \<open>pre\<close> left, so no later file is restored.
\<close>

theorem failed_move_ends_restore:
  assumes "restore env False pre w = (Inr (), w1)"
    and "disk w1 (getTmpFileName f) = None"
  shows "restore env False (pre @ f # post) w =
           (Inl (ENOENT (getTmpFileName f)),
            w1\<lparr>trace := trace w1 @ [moveLine env f, MoveFile (getTmpFileName f) f]\<rparr>)
       \<and> disk (snd (restore env False (pre @ f # post) w)) = disk w1"
  using assms restore_missing[OF assms(2), of env post]
  by (simp add: restore_append moveEvents_def)

text \<open>Three targets, the shadow copy of the second missing: the first is restored, the
  third keeps the generated content and its shadow copy.\<close>

theorem failed_move_ends_restore_witness:
  "fst (restore sampleEnv False [''a.ts''] (onDisk generatedDisk)) = Inr ()
   \<and> disk (snd (restore sampleEnv False [''a.ts''] (onDisk generatedDisk))) (getTmpFileName ''b.ts'') = None
   \<and> fst (restore sampleEnv False ([''a.ts''] @ ''b.ts'' # [''c.ts'']) (onDisk generatedDisk))
        = Inl (ENOENT (getTmpFileName ''b.ts''))
   \<and> disk (snd (restore sampleEnv False ([''a.ts''] @ ''b.ts'' # [''c.ts'']) (onDisk generatedDisk)))
        = [''a.ts'' \<mapsto> textFile ''A'', ''b.ts'' \<mapsto> textFile ''B2'',
           ''c.ts'' \<mapsto> textFile ''C2'', ''c.ts.tmp'' \<mapsto> textFile ''C'']
   \<and> filter isMove (trace (snd (restore sampleEnv False ([''a.ts''] @ ''b.ts'' # [''c.ts''])
                                   (onDisk generatedDisk))))
        = [MoveFile ''a.ts.tmp'' ''a.ts'', MoveFile ''b.ts.tmp'' ''b.ts'']"
proof -
  let ?w1 = "snd (restore sampleEnv False [''a.ts''] (onDisk generatedDisk))"
  have e1: "fst (restore sampleEnv False [''a.ts''] (onDisk generatedDisk)) = Inr ()"
    by (simp add: run_defs env_defs)
  then have h1: "restore sampleEnv False [''a.ts''] (onDisk generatedDisk) = (Inr (), ?w1)"
    by (metis prod.collapse)
  have h2: "disk ?w1 (getTmpFileName ''b.ts'') = None"
    by (simp add: run_defs env_defs)
  have d1: "disk ?w1 = [''a.ts'' \<mapsto> textFile ''A'', ''b.ts'' \<mapsto> textFile ''B2'',
           ''c.ts'' \<mapsto> textFile ''C2'', ''c.ts.tmp'' \<mapsto> textFile ''C'']"
    by (simp add: run_defs env_defs) (auto simp: fun_eq_iff)
  have t1: "filter isMove (trace ?w1) = [MoveFile ''a.ts.tmp'' ''a.ts'']"
    by (simp add: run_defs env_defs)
  from failed_move_ends_restore[OF h1 h2, of "[''c.ts'']"] d1 t1
  have "fst (restore sampleEnv False ([''a.ts''] @ ''b.ts'' # [''c.ts'']) (onDisk generatedDisk))
        = Inl (ENOENT (getTmpFileName ''b.ts''))
   \<and> disk (snd (restore sampleEnv False ([''a.ts''] @ ''b.ts'' # [''c.ts'']) (onDisk generatedDisk)))
        = [''a.ts'' \<mapsto> textFile ''A'', ''b.ts'' \<mapsto> textFile ''B2'',
           ''c.ts'' \<mapsto> textFile ''C2'', ''c.ts.tmp'' \<mapsto> textFile ''C'']
   \<and> filter isMove (trace (snd (restore sampleEnv False ([''a.ts''] @ ''b.ts'' # [''c.ts''])
                                   (onDisk generatedDisk))))
        = [MoveFile ''a.ts.tmp'' ''a.ts'', MoveFile ''b.ts.tmp'' ''b.ts'']"
    by (simp add: moveLine_def getTmpFileName_def)
  with e1 h2 show ?thesis by blast
qed

section \<open>The compare step\<close>



section \<open>Drift that the length test misses\<close>

text \<open>
  C3 at a failing input. The target \<^verbatim>\<open>schema.ts\<close> is an empty file and the generator
  writes a line to it. The run resolves with the exit code unset, and between the
  diff line and the move line there are only the two reads: no error line, no patch.
\<close>

theorem drift_from_empty_file_is_missed:
  "disk (onDisk emptyFileDisk) ''schema.ts'' = Some \<lparr>content = [], readable = True\<rparr>
   \<and> snd (execa writingEnv ''gen'' []
             [''schema.ts'' \<mapsto> \<lparr>content = [], readable = True\<rparr>,
              ''schema.ts.tmp'' \<mapsto> \<lparr>content = [], readable = True\<rparr>]) ''schema.ts''
       = Some \<lparr>content = ''B'' @ [CHR 0x0A], readable = True\<rparr>
   \<and> main writingEnv normalRun [''gen''] (onDisk emptyFileDisk)
       = (Resolved,
          \<lparr>disk = emptyFileDisk,
           trace = [Globby [''schema.ts''], PathExists ''schema.ts.tmp'',
                    copyLine writingEnv ''schema.ts'', CopyFile ''schema.ts'' ''schema.ts.tmp'',
                    emitLine writingEnv [''gen''], Execa ''gen'' [],
                    diffLine writingEnv ''schema.ts'',
                    ReadFile ''schema.ts'', ReadFile ''schema.ts.tmp'',
                    moveLine writingEnv ''schema.ts'', MoveFile ''schema.ts.tmp'' ''schema.ts''],
           exitCode = None\<rparr>)"
  by (simp add: run_defs env_defs diff_defs copyLine_def emitLine_def diffLine_def moveLine_def
      logEvent_def)

text \<open>
  C4, the inputs at which it fails. The line diff of the empty text against any other
  text is a single change object, an addition; that of any non-empty text against the
  empty text is a single removal. So whenever the shadow copy or the file is empty,
  the test \<^verbatim>\<open>diff.length > 1\<close> does not mark the file as changed, whether or not the
  two texts differ.
\<close>

theorem single_added_or_removed_hunk_is_missed:
  "(new \<noteq> [] \<longrightarrow>
      lineDiff [] new =
        Some [\<lparr>value = new, count = length (removeEmpty (tokenize new)),
               added = True, removed = False\<rparr>])
   \<and> (old \<noteq> [] \<longrightarrow>
      lineDiff old [] =
        Some [\<lparr>value = old, count = length (removeEmpty (tokenize old)),
               added = False, removed = True\<rparr>])
   \<and> (diffLines env = lineDiff \<and> d f = Some n \<and> d (getTmpFileName f) = Some t
        \<and> (content t = [] \<or> content n = []) \<longrightarrow> \<not> changed env d f)"
proof (intro conjI impI)
  assume "new \<noteq> []"
  then show "lineDiff [] new =
        Some [\<lparr>value = new, count = length (removeEmpty (tokenize new)),
               added = True, removed = False\<rparr>]"
    by (rule lineDiff_old_empty)
next
  assume "old \<noteq> []"
  then show "lineDiff old [] =
        Some [\<lparr>value = old, count = length (removeEmpty (tokenize old)),
               added = False, removed = True\<rparr>]"
    by (rule lineDiff_new_empty)
next
  assume a: "diffLines env = lineDiff \<and> d f = Some n \<and> d (getTmpFileName f) = Some t
        \<and> (content t = [] \<or> content n = [])"
  show "\<not> changed env d f"
  proof (cases "content t = content n")
    case True
    with a show ?thesis by (simp add: changed_def lineDiff_same)
  next
    case False
    with a consider "content t = []" "content n \<noteq> []" | "content n = []" "content t \<noteq> []"
      by auto
    then show ?thesis
    proof cases
      case 1
      with a show ?thesis by (simp add: changed_def lineDiff_old_empty)
    next
      case 2
      with a show ?thesis by (simp add: changed_def lineDiff_new_empty)
    qed
  qed
qed

text \<open>An empty shadow copy against a file of one line: the texts differ, and the file is
  not marked as changed.\<close>

theorem single_added_or_removed_hunk_is_missed_witness:
  "''B'' @ [CHR 0x0A] \<noteq> []
   \<and> lineDiff [] (''B'' @ [CHR 0x0A])
       = Some [\<lparr>value = ''B'' @ [CHR 0x0A], count = 1, added = True, removed = False\<rparr>]
   \<and> ''A'' @ [CHR 0x0A] \<noteq> []
   \<and> lineDiff (''A'' @ [CHR 0x0A]) []
       = Some [\<lparr>value = ''A'' @ [CHR 0x0A], count = 1, added = False, removed = True\<rparr>]
   \<and> diffLines sampleEnv = lineDiff
   \<and> [''schema.ts'' \<mapsto> textFile ''B'', ''schema.ts.tmp'' \<mapsto> \<lparr>content = [], readable = True\<rparr>]
        ''schema.ts'' = Some (textFile ''B'')
   \<and> [''schema.ts'' \<mapsto> textFile ''B'', ''schema.ts.tmp'' \<mapsto> \<lparr>content = [], readable = True\<rparr>]
        (getTmpFileName ''schema.ts'') = Some \<lparr>content = [], readable = True\<rparr>
   \<and> content \<lparr>content = [], readable = True\<rparr> = []
   \<and> content \<lparr>content = [], readable = True\<rparr> \<noteq> content (textFile ''B'')
   \<and> \<not> changed sampleEnv
         [''schema.ts'' \<mapsto> textFile ''B'', ''schema.ts.tmp'' \<mapsto> \<lparr>content = [], readable = True\<rparr>]
         ''schema.ts''"
proof -
  let ?d = "[''schema.ts'' \<mapsto> textFile ''B'', ''schema.ts.tmp'' \<mapsto> \<lparr>content = [], readable = True\<rparr>]"
  have c1: "length (removeEmpty (tokenize (''B'' @ [CHR 0x0A]))) = 1"
    by (simp add: tokenize_def removeEmpty_def)
  have c2: "length (removeEmpty (tokenize (''A'' @ [CHR 0x0A]))) = 1"
    by (simp add: tokenize_def removeEmpty_def)
  have h1: "diffLines sampleEnv = lineDiff" by (simp add: sampleEnv_def)
  have h2: "?d ''schema.ts'' = Some (textFile ''B'')" by simp
  have h3: "?d (getTmpFileName ''schema.ts'') = Some \<lparr>content = [], readable = True\<rparr>"
    by (simp add: getTmpFileName_def)
  have h4: "content \<lparr>content = [], readable = True\<rparr> \<noteq> content (textFile ''B'')"
    by (simp add: textFile_def)
  note T = single_added_or_removed_hunk_is_missed[of "''B'' @ [CHR 0x0A]" "''A'' @ [CHR 0x0A]"
      sampleEnv ?d "''schema.ts''" "textFile ''B''" "\<lparr>content = [], readable = True\<rparr>"]
  from T c1 have a: "lineDiff [] (''B'' @ [CHR 0x0A])
       = Some [\<lparr>value = ''B'' @ [CHR 0x0A], count = 1, added = True, removed = False\<rparr>]"
    by simp
  from T c2 have b: "lineDiff (''A'' @ [CHR 0x0A]) []
       = Some [\<lparr>value = ''A'' @ [CHR 0x0A], count = 1, added = False, removed = True\<rparr>]"
    by simp
  from T h1 h2 h3 have c: "\<not> changed sampleEnv ?d ''schema.ts''" by simp
  from a b c h1 h2 h3 h4 show ?thesis by simp
qed

end
